theory Spec2Isabelle
  imports Main "HOL-Library.Word" "HOL-Library.Multiset"
begin

unbundle bit_operations_syntax

section \<open>JavaScript values\<close>

text \<open>
  The webhook body is what \<^verbatim>\<open>express.json\<close> hands to the router: a parsed JSON value.
  Property reads add \<^verbatim>\<open>undefined\<close>. A string is modelled by its UTF-8 bytes (what
  \<^verbatim>\<open>Buffer.from\<close> and \<^verbatim>\<open>hash.update\<close> see), a number by its canonical
  \<^verbatim>\<open>Number.prototype.toString\<close> form (\<^verbatim>\<open>0\<close> and \<^verbatim>\<open>-0\<close> both print as
  \<open>''0''\<close>), an object by its own properties after parsing (keys distinct).
\<close>

datatype js =
    JUndefined
  | JNull
  | JBool bool
  | JNum string
  | JStr string
  | JArr "js list"
  | JObj "(string \<times> js) list"

datatype error = TypeError | RangeError | CastError

text \<open>ToBoolean: what \<^verbatim>\<open>!x\<close>, \<^verbatim>\<open>x || y\<close> and \<^verbatim>\<open>x ? a : b\<close> test.\<close>

fun truthy :: "js \<Rightarrow> bool" where
  "truthy JUndefined = False"
| "truthy JNull = False"
| "truthy (JBool b) = b"
| "truthy (JNum n) = (n \<noteq> ''0'' \<and> n \<noteq> ''NaN'')"
| "truthy (JStr s) = (s \<noteq> [])"
| "truthy (JArr xs) = True"
| "truthy (JObj kvs) = True"

text \<open>\<^verbatim>\<open>a || b\<close>.\<close>

definition js_or :: "js \<Rightarrow> js \<Rightarrow> js" where
  "js_or a b = (if truthy a then a else b)"

text \<open>
  \<^verbatim>\<open>v?.k\<close> for the property names the source reads (entry, changes, value, metadata,
  phone_number_id, messages, id, from, timestamp, type, text, body, button, interactive):
  none of them is on a prototype, so the read is an own-property lookup on an object and
  \<^verbatim>\<open>undefined\<close> on everything else.
\<close>

fun get :: "js \<Rightarrow> string \<Rightarrow> js" where
  "get (JObj kvs) k = (case map_of kvs k of None \<Rightarrow> JUndefined | Some v \<Rightarrow> v)"
| "get v k = JUndefined"

text \<open>
  \<^verbatim>\<open>for (const x of v)\<close>: an array yields its elements, a string its code points
  (each a string again), every other value is not iterable and the loop header throws.
\<close>

definition is_continuation :: "char \<Rightarrow> bool" where
  "is_continuation c = (128 \<le> (of_char c :: nat) \<and> (of_char c :: nat) < 192)"

function code_points :: "string \<Rightarrow> string list" where
  "code_points [] = []"
| "code_points (c # cs) =
     (c # takeWhile is_continuation cs) # code_points (dropWhile is_continuation cs)"
  by pat_completeness auto
termination
  by (relation "measure length") (auto simp: length_dropWhile_le less_Suc_eq_le)

fun iterate :: "js \<Rightarrow> error + js list" where
  "iterate (JArr xs) = Inr xs"
| "iterate (JStr s) = Inr (map JStr (code_points s))"
| "iterate v = Inl TypeError"

text \<open>
  ToString, as a template literal applies it. An array joins its elements with commas
  (\<^verbatim>\<open>null\<close> and \<^verbatim>\<open>undefined\<close> elements as the empty string); a parsed object prints as
  \<^verbatim>\<open>[object Object]\<close> unless it has an own \<^verbatim>\<open>toString\<close> property, which is never
  callable for parsed JSON, and then the conversion throws.
\<close>

fun join_comma :: "string list \<Rightarrow> string" where
  "join_comma [] = ''''"
| "join_comma [s] = s"
| "join_comma (s # t # ts) = s @ '','' @ join_comma (t # ts)"

fun to_string :: "js \<Rightarrow> error + string"
  and elements_to_strings :: "js list \<Rightarrow> error + string list" where
  "to_string JUndefined = Inr ''undefined''"
| "to_string JNull = Inr ''null''"
| "to_string (JBool b) = Inr (if b then ''true'' else ''false'')"
| "to_string (JNum n) = Inr n"
| "to_string (JStr s) = Inr s"
| "to_string (JArr xs) =
     (case elements_to_strings xs of Inl e \<Rightarrow> Inl e | Inr ss \<Rightarrow> Inr (join_comma ss))"
| "to_string (JObj kvs) =
     (case map_of kvs ''toString'' of
        None \<Rightarrow> Inr ''[object Object]''
      | Some f \<Rightarrow> Inl TypeError)"
| "elements_to_strings [] = Inr []"
| "elements_to_strings (x # xs) =
     (case (if x = JUndefined \<or> x = JNull then Inr '''' else to_string x) of
        Inl e \<Rightarrow> Inl e
      | Inr s \<Rightarrow> (case elements_to_strings xs of Inl e \<Rightarrow> Inl e | Inr ss \<Rightarrow> Inr (s # ss)))"

section \<open>The crypto module: SHA-256 and HMAC-SHA256\<close>

text \<open>
  \<^verbatim>\<open>crypto.createHash("sha256")\<close> and \<^verbatim>\<open>crypto.createHmac("sha256", key)\<close> are
  Node's; they are modelled after FIPS 180-4 and RFC 2104 on bytes, and the digest is
  printed in lower-case hexadecimal as \<^verbatim>\<open>digest("hex")\<close> does.
\<close>

type_synonym u32 = "32 word"
type_synonym byte = "8 word"
type_synonym hstate = "u32 \<times> u32 \<times> u32 \<times> u32 \<times> u32 \<times> u32 \<times> u32 \<times> u32"

definition ch :: "u32 \<Rightarrow> u32 \<Rightarrow> u32 \<Rightarrow> u32" where
  "ch x y z = (x AND y) XOR (NOT x AND z)"

definition maj :: "u32 \<Rightarrow> u32 \<Rightarrow> u32 \<Rightarrow> u32" where
  "maj x y z = (x AND y) XOR (x AND z) XOR (y AND z)"

definition bsig0 :: "u32 \<Rightarrow> u32" where
  "bsig0 x = word_rotr 2 x XOR word_rotr 13 x XOR word_rotr 22 x"

definition bsig1 :: "u32 \<Rightarrow> u32" where
  "bsig1 x = word_rotr 6 x XOR word_rotr 11 x XOR word_rotr 25 x"

definition ssig0 :: "u32 \<Rightarrow> u32" where
  "ssig0 x = word_rotr 7 x XOR word_rotr 18 x XOR drop_bit 3 x"

definition ssig1 :: "u32 \<Rightarrow> u32" where
  "ssig1 x = word_rotr 17 x XOR word_rotr 19 x XOR drop_bit 10 x"

text \<open>The round constants, in the eight rows of the standard's table.\<close>

definition K256 :: "u32 list" where
  "K256 =
     [0x428a2f98, 0x71374491, 0xb5c0fbcf, 0xe9b5dba5, 0x3956c25b, 0x59f111f1, 0x923f82a4, 0xab1c5ed5] @
     [0xd807aa98, 0x12835b01, 0x243185be, 0x550c7dc3, 0x72be5d74, 0x80deb1fe, 0x9bdc06a7, 0xc19bf174] @
     [0xe49b69c1, 0xefbe4786, 0x0fc19dc6, 0x240ca1cc, 0x2de92c6f, 0x4a7484aa, 0x5cb0a9dc, 0x76f988da] @
     [0x983e5152, 0xa831c66d, 0xb00327c8, 0xbf597fc7, 0xc6e00bf3, 0xd5a79147, 0x06ca6351, 0x14292967] @
     [0x27b70a85, 0x2e1b2138, 0x4d2c6dfc, 0x53380d13, 0x650a7354, 0x766a0abb, 0x81c2c92e, 0x92722c85] @
     [0xa2bfe8a1, 0xa81a664b, 0xc24b8b70, 0xc76c51a3, 0xd192e819, 0xd6990624, 0xf40e3585, 0x106aa070] @
     [0x19a4c116, 0x1e376c08, 0x2748774c, 0x34b0bcb5, 0x391c0cb3, 0x4ed8aa4a, 0x5b9cca4f, 0x682e6ff3] @
     [0x748f82ee, 0x78a5636f, 0x84c87814, 0x8cc70208, 0x90befffa, 0xa4506ceb, 0xbef9a3f7, 0xc67178f2]"

definition H0 :: hstate where
  "H0 = (0x6a09e667, 0xbb67ae85, 0x3c6ef372, 0xa54ff53a,
         0x510e527f, 0x9b05688c, 0x1f83d9ab, 0x5be0cd19)"

text \<open>The message schedule, computed over a window of the last sixteen words (oldest first).\<close>

fun schedule :: "nat \<Rightarrow> u32 list \<Rightarrow> u32 list" where
  "schedule 0 w = []"
| "schedule (Suc n) w =
     hd w # schedule n (tl w @ [ssig1 (w ! 14) + w ! 9 + ssig0 (w ! 1) + w ! 0])"

definition round256 :: "hstate \<Rightarrow> u32 \<times> u32 \<Rightarrow> hstate" where
  "round256 s kw =
     (case s of (a, b, c, d, e, f, g, h) \<Rightarrow> case kw of (k, w) \<Rightarrow>
        (let t1 = h + bsig1 e + ch e f g + k + w;
             t2 = bsig0 a + maj a b c
         in (t1 + t2, a, b, c, d + t1, e, f, g)))"

definition add_state :: "hstate \<Rightarrow> hstate \<Rightarrow> hstate" where
  "add_state s t =
     (case s of (a, b, c, d, e, f, g, h) \<Rightarrow> case t of (a', b', c', d', e', f', g', h') \<Rightarrow>
        (a + a', b + b', c + c', d + d', e + e', f + f', g + g', h + h'))"

definition compress :: "hstate \<Rightarrow> u32 list \<Rightarrow> hstate" where
  "compress hs w = add_state hs (foldl round256 hs (zip K256 (schedule 64 w)))"

fun be32 :: "byte list \<Rightarrow> u32 list" where
  "be32 (a # b # c # d # r) =
     (push_bit 24 (ucast a) OR push_bit 16 (ucast b) OR push_bit 8 (ucast c) OR ucast d) # be32 r"
| "be32 r = []"

fun blocks :: "nat \<Rightarrow> u32 list \<Rightarrow> u32 list list" where
  "blocks 0 ws = []"
| "blocks (Suc n) ws = take 16 ws # blocks n (drop 16 ws)"

definition pad :: "byte list \<Rightarrow> byte list" where
  "pad m =
     (let bitlen = (word_of_nat (8 * length m) :: 64 word)
      in m @ [0x80] @ replicate ((119 - length m mod 64) mod 64) 0 @
         map (\<lambda>i. ucast (drop_bit (8 * i) bitlen)) [7, 6, 5, 4, 3, 2, 1, 0])"

definition sha256 :: "byte list \<Rightarrow> u32 list" where
  "sha256 m =
     (let ws = be32 (pad m)
      in case foldl compress H0 (blocks (length ws div 16) ws) of
           (a, b, c, d, e, f, g, h) \<Rightarrow> [a, b, c, d, e, f, g, h])"

definition bytes32 :: "u32 \<Rightarrow> byte list" where
  "bytes32 w = map (\<lambda>i. ucast (drop_bit (8 * i) w)) [3, 2, 1, 0]"

definition sha256_bytes :: "byte list \<Rightarrow> byte list" where
  "sha256_bytes m = concat (map bytes32 (sha256 m))"

definition hexdigit :: "nat \<Rightarrow> char" where
  "hexdigit n = ''0123456789abcdef'' ! n"

definition hex32 :: "u32 \<Rightarrow> string" where
  "hex32 w = map (\<lambda>i. hexdigit (unat (drop_bit (4 * i) w AND 15))) [7, 6, 5, 4, 3, 2, 1, 0]"

definition hex_digest :: "u32 list \<Rightarrow> string" where
  "hex_digest ws = concat (map hex32 ws)"

definition bytes_of :: "string \<Rightarrow> byte list" where
  "bytes_of s = map of_char s"

text \<open>\<^verbatim>\<open>crypto.createHash("sha256").update(s).digest("hex")\<close>\<close>

definition sha256_hex :: "string \<Rightarrow> string" where
  "sha256_hex s = hex_digest (sha256 (bytes_of s))"

text \<open>\<^verbatim>\<open>crypto.createHmac("sha256", key).update(msg).digest("hex")\<close>\<close>

definition hmac_key_block :: "byte list \<Rightarrow> byte list" where
  "hmac_key_block key =
     (let k = (if 64 < length key then sha256_bytes key else key)
      in k @ replicate (64 - length k) 0)"

definition hmac_sha256_hex :: "string \<Rightarrow> string \<Rightarrow> string" where
  "hmac_sha256_hex key msg =
     (let k0 = hmac_key_block (bytes_of key);
          inner = sha256_bytes (map (\<lambda>b. b XOR 0x36) k0 @ bytes_of msg)
      in hex_digest (sha256 (map (\<lambda>b. b XOR 0x5c) k0 @ inner)))"

section \<open>services/privacy.js\<close>

text \<open>
  \<^verbatim>\<open>hashPhone(phone, salt)\<close>: \<open>None\<close> is the returned \<^verbatim>\<open>null\<close>; \<open>Inl\<close> is an
  exception thrown by the template literal.
\<close>

definition hashPhone :: "js \<Rightarrow> js \<Rightarrow> error + string option" where
  "hashPhone phone salt =
     (if \<not> truthy phone then Inr None
      else
        (let s = js_or salt (JStr '''')
         in case to_string s of
              Inl e \<Rightarrow> Inl e
            | Inr ss \<Rightarrow>
                (case to_string phone of
                   Inl e \<Rightarrow> Inl e
                 | Inr ps \<Rightarrow> Inr (Some (sha256_hex (ss @ '':'' @ ps))))))"

section \<open>services/metaSignature.js\<close>

text \<open>
  The request as the verifier and the router read it: the \<^verbatim>\<open>x-hub-signature-256\<close>
  header (\<^verbatim>\<open>req.get\<close> gives a string or \<^verbatim>\<open>undefined\<close>), the raw body bytes kept by
  the JSON parser's \<^verbatim>\<open>verify\<close> hook (absent when no body was parsed), the parsed
  body, and the query parameters.
\<close>

record request =
  signature_header :: "string option"
  rawBody :: "string option"
  body :: js
  query :: "(string \<times> js) list"

text \<open>
  \<^verbatim>\<open>crypto.timingSafeEqual(a, b)\<close> throws a RangeError when the byte lengths differ.
\<close>

definition timingSafeEqual :: "string \<Rightarrow> string \<Rightarrow> error + bool" where
  "timingSafeEqual a b = (if length a \<noteq> length b then Inl RangeError else Inr (a = b))"

definition expected_signature :: "string \<Rightarrow> request \<Rightarrow> string" where
  "expected_signature appSecret req =
     ''sha256='' @ hmac_sha256_hex appSecret (case rawBody req of None \<Rightarrow> '''' | Some b \<Rightarrow> b)"

text \<open>
  \<^verbatim>\<open>verifyMetaSignature(req, appSecret)\<close>; the secret is a string from the environment
  or absent (\<open>None\<close>).
\<close>

definition verifyMetaSignature :: "request \<Rightarrow> string option \<Rightarrow> bool" where
  "verifyMetaSignature req appSecret =
     (case appSecret of
        None \<Rightarrow> True
      | Some secret \<Rightarrow>
          if secret = [] then True
          else
            (case signature_header req of
               None \<Rightarrow> False
             | Some sig \<Rightarrow>
                 if sig = [] then False
                 else
                   (case timingSafeEqual sig (expected_signature secret req) of
                      Inl e \<Rightarrow> False
                    | Inr b \<Rightarrow> b)))"

section \<open>services/whatsappParser.js\<close>

text \<open>
  The timestamp of a record. \<^verbatim>\<open>new Date(Number(t) * 1000)\<close> is kept as a function of
  the raw timestamp value \<open>t\<close>; \<^verbatim>\<open>new Date()\<close> reads the clock. The extraction takes
  the clock as the sequence of its readings during the call (milliseconds since the
  epoch): the \<open>n\<close>-th \<^verbatim>\<open>new Date()\<close> of a call returns \<open>clock n\<close>, and the loops
  carry the number of readings taken so far next to \<^verbatim>\<open>out\<close>. The field \<open>msg_text\<close> is
  the property \<^verbatim>\<open>text\<close> of the pushed object.
\<close>

datatype jsdate = DateFromTimestamp js | DateNow int

record inbound =
  wa_message_id :: js
  phone_number_id :: js
  sender_phone :: js
  msg_type :: js
  msg_text :: js
  ts :: jsdate
  raw_message :: js

text \<open>
  ToPrimitive, the first step of \<^verbatim>\<open>Number(v)\<close>. A parsed object or array has no
  \<^verbatim>\<open>valueOf\<close> that returns a primitive, so the conversion ends in \<^verbatim>\<open>toString\<close>: it
  throws a TypeError for an object with an own \<^verbatim>\<open>toString\<close> property (never callable
  in parsed JSON) and for an array that holds one. Turning the primitive into a number
  throws nothing.
\<close>

definition to_primitive :: "js \<Rightarrow> error + js" where
  "to_primitive v =
     (case v of
        JObj kvs \<Rightarrow> (case to_string v of Inl e \<Rightarrow> Inl e | Inr s \<Rightarrow> Inr (JStr s))
      | JArr xs \<Rightarrow> (case to_string v of Inl e \<Rightarrow> Inl e | Inr s \<Rightarrow> Inr (JStr s))
      | other \<Rightarrow> Inr v)"

text \<open>
  The body of the innermost loop: the locals \<^verbatim>\<open>type\<close>, \<^verbatim>\<open>text\<close> and \<^verbatim>\<open>ts\<close>, and
  the record pushed for one message \<open>m\<close>. \<open>message_ts\<close> returns the date with the
  number of clock readings after it.
\<close>

definition message_type :: "js \<Rightarrow> js" where
  "message_type m = js_or (get m ''type'') (JStr ''unknown'')"

definition message_text :: "js \<Rightarrow> js" where
  "message_text m =
     (let type = message_type m
      in if type = JStr ''text'' then js_or (get (get m ''text'') ''body'') JNull
         else if type = JStr ''button'' then js_or (get (get m ''button'') ''text'') JNull
         else if type = JStr ''interactive'' then js_or (get (get m ''interactive'') ''type'') JNull
         else JNull)"

definition message_ts :: "(nat \<Rightarrow> int) \<Rightarrow> nat \<Rightarrow> js \<Rightarrow> error + jsdate \<times> nat" where
  "message_ts clock n m =
     (if truthy (get m ''timestamp'')
      then (case to_primitive (get m ''timestamp'') of
              Inl e \<Rightarrow> Inl e
            | Inr p \<Rightarrow> Inr (DateFromTimestamp (get m ''timestamp''), n))
      else Inr (DateNow (clock n), Suc n))"

definition pushed :: "jsdate \<Rightarrow> js \<Rightarrow> js \<Rightarrow> inbound" where
  "pushed date phoneNumberId m =
     \<lparr> wa_message_id = get m ''id'',
       phone_number_id = phoneNumberId,
       sender_phone = js_or (get m ''from'') JNull,
       msg_type = message_type m,
       msg_text = message_text m,
       ts = date,
       raw_message = m \<rparr>"

definition message_record ::
  "(nat \<Rightarrow> int) \<Rightarrow> nat \<Rightarrow> js \<Rightarrow> js \<Rightarrow> error + inbound \<times> nat" where
  "message_record clock n phoneNumberId m =
     (case message_ts clock n m of
        Inl e \<Rightarrow> Inl e
      | Inr (date, n') \<Rightarrow> Inr (pushed date phoneNumberId m, n'))"

text \<open>
  The three nested loops, with the accumulator \<open>out\<close> and the number of clock readings;
  a throw discards both.
\<close>

fun messages_loop ::
  "(nat \<Rightarrow> int) \<Rightarrow> js \<Rightarrow> js list \<Rightarrow> inbound list \<times> nat \<Rightarrow> error + inbound list \<times> nat" where
  "messages_loop clock phoneNumberId [] (out, n) = Inr (out, n)"
| "messages_loop clock phoneNumberId (m # ms) (out, n) =
     (case message_record clock n phoneNumberId m of
        Inl e \<Rightarrow> Inl e
      | Inr (r, n') \<Rightarrow> messages_loop clock phoneNumberId ms (out @ [r], n'))"

definition change_phone_number_id :: "js \<Rightarrow> js" where
  "change_phone_number_id change =
     (let value = js_or (get change ''value'') (JObj []);
          metadata = js_or (get value ''metadata'') (JObj [])
      in js_or (get metadata ''phone_number_id'') JNull)"

definition change_messages :: "js \<Rightarrow> js" where
  "change_messages change =
     (let value = js_or (get change ''value'') (JObj [])
      in js_or (get value ''messages'') (JArr []))"

fun changes_loop ::
  "(nat \<Rightarrow> int) \<Rightarrow> js list \<Rightarrow> inbound list \<times> nat \<Rightarrow> error + inbound list \<times> nat" where
  "changes_loop clock [] (out, n) = Inr (out, n)"
| "changes_loop clock (change # cs) (out, n) =
     (let phoneNumberId = change_phone_number_id change;
          messages = change_messages change
      in case iterate messages of
           Inl e \<Rightarrow> Inl e
         | Inr ms \<Rightarrow>
             (case messages_loop clock phoneNumberId ms (out, n) of
                Inl e \<Rightarrow> Inl e
              | Inr st \<Rightarrow> changes_loop clock cs st))"

definition entry_changes :: "js \<Rightarrow> js" where
  "entry_changes entry = js_or (get entry ''changes'') (JArr [])"

fun entries_loop ::
  "(nat \<Rightarrow> int) \<Rightarrow> js list \<Rightarrow> inbound list \<times> nat \<Rightarrow> error + inbound list \<times> nat" where
  "entries_loop clock [] (out, n) = Inr (out, n)"
| "entries_loop clock (entry # es) (out, n) =
     (case iterate (entry_changes entry) of
        Inl e \<Rightarrow> Inl e
      | Inr cs \<Rightarrow>
          (case changes_loop clock cs (out, n) of
             Inl e \<Rightarrow> Inl e
           | Inr st \<Rightarrow> entries_loop clock es st))"

definition body_entries :: "js \<Rightarrow> js" where
  "body_entries webhookBody = js_or (get webhookBody ''entry'') (JArr [])"

definition extractInboundMessages :: "(nat \<Rightarrow> int) \<Rightarrow> js \<Rightarrow> error + inbound list" where
  "extractInboundMessages clock webhookBody =
     (case iterate (body_entries webhookBody) of
        Inl e \<Rightarrow> Inl e
      | Inr es \<Rightarrow>
          (case entries_loop clock es ([], 0) of
             Inl e \<Rightarrow> Inl e
           | Inr (out, n) \<Rightarrow> Inr out))"

text \<open>
  The flattening in the specification's words: the messages of every change of every
  entry, in order, each with its change's channel identifier (\<open>all_messages\<close>), and the
  record of each, a message without a timestamp taking the next reading of the clock
  (\<open>records\<close>; \<open>ticks\<close> counts the readings taken). \<open>items\<close> reads a level that
  is an array (or a string); \<open>iterable\<close> says that a level can be read so;
  \<open>timestamp_converts\<close> says that the timestamp of a message, if it has one, can be
  turned into a number.
\<close>

definition iterable :: "js \<Rightarrow> bool" where
  "iterable v = (case iterate v of Inl e \<Rightarrow> False | Inr xs \<Rightarrow> True)"

definition items :: "js \<Rightarrow> js list" where
  "items v = (case iterate v of Inl e \<Rightarrow> [] | Inr xs \<Rightarrow> xs)"

definition change_pairs :: "js \<Rightarrow> (js \<times> js) list" where
  "change_pairs change =
     map (Pair (change_phone_number_id change)) (items (change_messages change))"

definition entry_pairs :: "js \<Rightarrow> (js \<times> js) list" where
  "entry_pairs entry = concat (map change_pairs (items (entry_changes entry)))"

definition all_messages :: "js \<Rightarrow> (js \<times> js) list" where
  "all_messages webhookBody = concat (map entry_pairs (items (body_entries webhookBody)))"

definition untimed :: "js \<Rightarrow> bool" where
  "untimed m = (\<not> truthy (get m ''timestamp''))"

definition ticks :: "(js \<times> js) list \<Rightarrow> nat" where
  "ticks pairs = length (filter (\<lambda>p. untimed (snd p)) pairs)"

fun records :: "(nat \<Rightarrow> int) \<Rightarrow> nat \<Rightarrow> (js \<times> js) list \<Rightarrow> inbound list" where
  "records clock n [] = []"
| "records clock n ((phoneNumberId, m) # rest) =
     (if untimed m
      then pushed (DateNow (clock n)) phoneNumberId m # records clock (Suc n) rest
      else pushed (DateFromTimestamp (get m ''timestamp'')) phoneNumberId m
           # records clock n rest)"

definition timestamp_converts :: "js \<Rightarrow> bool" where
  "timestamp_converts m =
     (case to_primitive (get m ''timestamp'') of Inl e \<Rightarrow> False | Inr p \<Rightarrow> True)"

definition well_formed_change :: "js \<Rightarrow> bool" where
  "well_formed_change change =
     (iterable (change_messages change) \<and>
      list_all timestamp_converts (items (change_messages change)))"

definition well_formed_entry :: "js \<Rightarrow> bool" where
  "well_formed_entry entry =
     (iterable (entry_changes entry) \<and>
      list_all well_formed_change (items (entry_changes entry)))"

definition well_formed :: "js \<Rightarrow> bool" where
  "well_formed webhookBody =
     (iterable (body_entries webhookBody) \<and>
      list_all well_formed_entry (items (body_entries webhookBody)))"

section \<open>models/Message.js and the storage collaborator\<close>

text \<open>
  The one shape of write the router builds:
  \<^verbatim>\<open>{ updateOne: { filter: { wa_message_id }, update: { $setOnInsert: {...} }, upsert } }\<close>.
  \<open>message_fields\<close> is the object under \<^verbatim>\<open>$setOnInsert\<close>, with the values as the
  router passes them.
\<close>

record message_fields =
  doc_wa_message_id :: js
  doc_phone_number_id :: js
  doc_sender_phone_hash :: "string option"
  doc_direction :: string
  doc_msg_type :: js
  doc_text :: js
  doc_ts :: jsdate
  doc_raw_message :: js

record update_op =
  filter_wa_message_id :: js
  setOnInsert :: message_fields
  upsert :: bool

text \<open>
  A document of the \<^verbatim>\<open>message\<close> collection: its fields by name, a value or a date
  each. Lookup and assignment of a field. (The \<^verbatim>\<open>_id\<close> and the version key, which a
  document gets when it is inserted and which no write of the router names, are left
  out.)
\<close>

datatype field_value = FVal js | FDate jsdate

type_synonym document = "(string \<times> field_value) list"

definition get_field :: "document \<Rightarrow> string \<Rightarrow> field_value option" where
  "get_field d k = map_of d k"

fun set_field :: "string \<Rightarrow> field_value \<Rightarrow> document \<Rightarrow> document" where
  "set_field k v [] = [(k, v)]"
| "set_field k v ((k', v') # d) =
     (if k' = k then (k, v) # d else (k', v') # set_field k v d)"

fun set_fields :: "(string \<times> field_value) list \<Rightarrow> document \<Rightarrow> document" where
  "set_fields [] d = d"
| "set_fields ((k, v) # kvs) d = set_fields kvs (set_field k v d)"

text \<open>
  What Mongoose makes of a write before it reaches the database, by the schema
  (models/Message.js). The paths of type String are cast: a string stays, a number or a
  boolean becomes its string, \<^verbatim>\<open>null\<close> stays, an object with a string \<^verbatim>\<open>_id\<close> becomes
  it, and every other object and every array fails the cast. With \<^verbatim>\<open>timestamps: true\<close>
  the update gets \<^verbatim>\<open>$set: { updatedAt: now }\<close> and \<^verbatim>\<open>$setOnInsert: { createdAt: now }\<close>,
  \<open>now\<close> being the time at which the write is cast. The path \<^verbatim>\<open>raw_message\<close> is Mixed
  and is not cast; a date is kept. (An invalid date fails the cast of the write, and so
  does an identifier that is an object of query operators: the runs below allow for
  that, since in them every write may fail.)
\<close>

fun cast_string :: "js \<Rightarrow> error + js" where
  "cast_string JUndefined = Inr JUndefined"
| "cast_string JNull = Inr JNull"
| "cast_string (JBool b) = Inr (JStr (if b then ''true'' else ''false''))"
| "cast_string (JNum n) = Inr (JStr n)"
| "cast_string (JStr s) = Inr (JStr s)"
| "cast_string (JArr xs) = Inl CastError"
| "cast_string (JObj kvs) =
     (case map_of kvs ''_id'' of
        Some (JStr (c # cs)) \<Rightarrow> Inr (JStr (c # cs))
      | other \<Rightarrow>
          (case map_of kvs ''toString'' of
             None \<Rightarrow> Inl CastError
           | Some f \<Rightarrow> if truthy f then Inl TypeError else Inl CastError))"

fun cast_paths :: "(string \<times> js) list \<Rightarrow> error + document" where
  "cast_paths [] = Inr []"
| "cast_paths ((k, v) # kvs) =
     (case cast_string v of
        Inl e \<Rightarrow> Inl e
      | Inr s \<Rightarrow> (case cast_paths kvs of Inl e \<Rightarrow> Inl e | Inr d \<Rightarrow> Inr ((k, FVal s) # d)))"

record mongo_update =
  m_filter :: document
  m_set :: "(string \<times> field_value) list"
  m_setOnInsert :: "(string \<times> field_value) list"
  m_upsert :: bool

definition cast_update :: "int \<Rightarrow> update_op \<Rightarrow> error + mongo_update" where
  "cast_update now op =
     (case cast_paths [(''wa_message_id'', filter_wa_message_id op)] of
        Inl e \<Rightarrow> Inl e
      | Inr flt \<Rightarrow>
          (case cast_paths
                  [(''wa_message_id'', doc_wa_message_id (setOnInsert op)),
                   (''phone_number_id'', doc_phone_number_id (setOnInsert op)),
                   (''sender_phone_hash'',
                      (case doc_sender_phone_hash (setOnInsert op) of
                         None \<Rightarrow> JNull
                       | Some h \<Rightarrow> JStr h)),
                   (''direction'', JStr (doc_direction (setOnInsert op))),
                   (''msg_type'', doc_msg_type (setOnInsert op)),
                   (''text'', doc_text (setOnInsert op))] of
             Inl e \<Rightarrow> Inl e
           | Inr strings \<Rightarrow>
               Inr \<lparr> m_filter = flt,
                     m_set = [(''updatedAt'', FDate (DateNow now))],
                     m_setOnInsert =
                       strings @
                       [(''ts'', FDate (doc_ts (setOnInsert op))),
                        (''raw_message'', FVal (doc_raw_message (setOnInsert op))),
                        (''createdAt'', FDate (DateNow now))],
                     m_upsert = upsert op \<rparr>))"

text \<open>
  The writes of one \<^verbatim>\<open>bulkWrite\<close> call that pass the cast, the \<open>i\<close>-th write of the
  call being cast at the time \<open>clock i\<close> (a version of Mongoose that reads the clock once
  for the call has a clock that stands still). Whether Mongoose sends them when another
  write of the call fails the cast depends on its version; the runs below allow both,
  since every write may fail.
\<close>

fun cast_all :: "(nat \<Rightarrow> int) \<Rightarrow> nat \<Rightarrow> update_op list \<Rightarrow> mongo_update list" where
  "cast_all clock i [] = []"
| "cast_all clock i (op # ops) =
     (case cast_update (clock i) op of
        Inl e \<Rightarrow> cast_all clock (Suc i) ops
      | Inr w \<Rightarrow> w # cast_all clock (Suc i) ops)"

text \<open>
  One \<^verbatim>\<open>updateOne\<close> as the database applies it, atomically. The first document that
  has the fields of the filter gets the fields under \<^verbatim>\<open>$set\<close>; without such a document
  and with \<^verbatim>\<open>upsert\<close>, a new document is inserted that has the fields of the filter,
  of \<^verbatim>\<open>$set\<close> and of \<^verbatim>\<open>$setOnInsert\<close>. The unique index on \<^verbatim>\<open>wa_message_id\<close>
  (schema, \<^verbatim>\<open>unique: true\<close>) refuses, as a duplicate key, a write after which two
  documents would share the key; the collection then stays as it is. A missing field
  counts as \<^verbatim>\<open>null\<close>, for the filter and for the index.
\<close>

definition field_or_null :: "document \<Rightarrow> string \<Rightarrow> field_value" where
  "field_or_null d k = (case get_field d k of None \<Rightarrow> FVal JNull | Some v \<Rightarrow> v)"

definition matches :: "document \<Rightarrow> document \<Rightarrow> bool" where
  "matches flt d = list_all (\<lambda>kv. field_or_null d (fst kv) = snd kv) flt"

fun update_first ::
  "(document \<Rightarrow> bool) \<Rightarrow> (document \<Rightarrow> document) \<Rightarrow> document list \<Rightarrow> document list option" where
  "update_first P f [] = None"
| "update_first P f (d # ds) =
     (if P d then Some (f d # ds)
      else (case update_first P f ds of None \<Rightarrow> None | Some ds' \<Rightarrow> Some (d # ds')))"

definition key_of :: "document \<Rightarrow> field_value" where
  "key_of d = field_or_null d ''wa_message_id''"

definition unique_ids :: "document list \<Rightarrow> bool" where
  "unique_ids db = distinct (map key_of db)"

definition new_document :: "mongo_update \<Rightarrow> document" where
  "new_document w = set_fields (m_setOnInsert w) (set_fields (m_set w) (m_filter w))"

definition updateOne :: "mongo_update \<Rightarrow> document list \<Rightarrow> document list" where
  "updateOne w db =
     (let db' =
        (case update_first (matches (m_filter w)) (set_fields (m_set w)) db of
           Some updated \<Rightarrow> updated
         | None \<Rightarrow> if m_upsert w then db @ [new_document w] else db)
      in if unique_ids db' then db' else db)"

text \<open>
  \<^verbatim>\<open>bulkWrite(ops, { ordered: false })\<close>, also of several requests at once: the
  pending writes are applied one at a time in any order, and a write may fail and leave
  the collection as it is without stopping the others.
\<close>

inductive bulkWrite ::
  "mongo_update multiset \<Rightarrow> document list \<Rightarrow> document list \<Rightarrow> bool" where
  finished: "bulkWrite {#} db db"
| applied: "w \<in># pending \<Longrightarrow> bulkWrite (pending - {#w#}) (updateOne w db) db' \<Longrightarrow>
            bulkWrite pending db db'"
| failed: "w \<in># pending \<Longrightarrow> bulkWrite (pending - {#w#}) db db' \<Longrightarrow>
           bulkWrite pending db db'"

text \<open>The writes applied in list order, for a run that can be evaluated.\<close>

fun apply_ops :: "mongo_update list \<Rightarrow> document list \<Rightarrow> document list" where
  "apply_ops [] db = db"
| "apply_ops (w # ws) db = apply_ops ws (updateOne w db)"

text \<open>The fields of a document other than \<^verbatim>\<open>updatedAt\<close>, in their order.\<close>

definition stable_fields :: "document \<Rightarrow> (string \<times> field_value) list" where
  "stable_fields d = filter (\<lambda>kv. fst kv \<noteq> ''updatedAt'') d"

section \<open>routes/webhook.js\<close>

record config =
  verifyToken :: string
  metaAppSecret :: "string option"
  phoneHashSalt :: js

datatype response = Send nat js | SendStatus nat

text \<open>\<^verbatim>\<open>req.query[k]\<close>\<close>

definition query_param :: "request \<Rightarrow> string \<Rightarrow> js" where
  "query_param req k = (case map_of (query req) k of None \<Rightarrow> JUndefined | Some v \<Rightarrow> v)"

text \<open>
  \<^verbatim>\<open>router.get("/")\<close>. \<open>Send 200 v\<close> is \<^verbatim>\<open>res.status(200).send(v)\<close>, which writes a
  string \<open>v\<close> as the body unchanged; \<open>SendStatus 403\<close> is \<^verbatim>\<open>res.sendStatus(403)\<close>.
  The verify token is a non-empty string (the process exits at start without one), so
  \<^verbatim>\<open>token === verifyToken\<close> holds exactly for that string.
\<close>

definition get_handler :: "config \<Rightarrow> request \<Rightarrow> response" where
  "get_handler cfg req =
     (let mode = query_param req ''hub.mode'';
          token = query_param req ''hub.verify_token'';
          challenge = query_param req ''hub.challenge''
      in if mode = JStr ''subscribe'' \<and> token = JStr (verifyToken cfg) then Send 200 challenge
         else SendStatus 403)"

text \<open>The write built for one record by the \<^verbatim>\<open>map\<close> callback.\<close>

definition make_op :: "js \<Rightarrow> inbound \<Rightarrow> error + update_op" where
  "make_op salt m =
     (case hashPhone (sender_phone m) salt of
        Inl e \<Rightarrow> Inl e
      | Inr h \<Rightarrow>
          Inr \<lparr> filter_wa_message_id = wa_message_id m,
                setOnInsert =
                  \<lparr> doc_wa_message_id = wa_message_id m,
                    doc_phone_number_id = phone_number_id m,
                    doc_sender_phone_hash = h,
                    doc_direction = ''inbound'',
                    doc_msg_type = msg_type m,
                    doc_text = msg_text m,
                    doc_ts = ts m,
                    doc_raw_message = raw_message m \<rparr>,
                upsert = True \<rparr>)"

fun map_ops :: "js \<Rightarrow> inbound list \<Rightarrow> error + update_op list" where
  "map_ops salt [] = Inr []"
| "map_ops salt (m # ms) =
     (case make_op salt m of
        Inl e \<Rightarrow> Inl e
      | Inr op \<Rightarrow> (case map_ops salt ms of Inl e \<Rightarrow> Inl e | Inr ops \<Rightarrow> Inr (op # ops)))"

text \<open>\<^verbatim>\<open>msgs.filter((m) => m.wa_message_id).map(...)\<close>\<close>

definition build_ops :: "js \<Rightarrow> inbound list \<Rightarrow> error + update_op list" where
  "build_ops salt msgs = map_ops salt (filter (\<lambda>m. truthy (wa_message_id m)) msgs)"

text \<open>
  \<^verbatim>\<open>router.post("/")\<close> up to the call of \<^verbatim>\<open>bulkWrite\<close>: the response, and what the
  processing after it comes to. \<open>Writes ops\<close> hands \<open>ops\<close> to \<^verbatim>\<open>bulkWrite\<close> (not
  called when \<open>ops\<close> is empty) and logs their number; \<open>Failed\<close> is the \<^verbatim>\<open>catch\<close>.
\<close>

datatype outcome = Rejected | NoMessages | Failed error | Writes "update_op list"

definition post_handler :: "config \<Rightarrow> request \<Rightarrow> (nat \<Rightarrow> int) \<Rightarrow> response \<times> outcome" where
  "post_handler cfg req clock =
     (if \<not> verifyMetaSignature req (metaAppSecret cfg) then (SendStatus 403, Rejected)
      else
        (SendStatus 200,
         case extractInboundMessages clock (body req) of
           Inl e \<Rightarrow> Failed e
         | Inr msgs \<Rightarrow>
             if msgs = [] then NoMessages
             else (case build_ops (phoneHashSalt cfg) msgs of
                     Inl e \<Rightarrow> Failed e
                   | Inr ops \<Rightarrow> Writes ops)))"

text \<open>
  One delivery: the request, the readings of the clock while its body is extracted, and
  the times at which the writes of its \<^verbatim>\<open>bulkWrite\<close> call are cast. \<open>issued_ops\<close> are
  the writes that reach the database for it.
\<close>

record delivery =
  delivered :: request
  readings :: "nat \<Rightarrow> int"
  written_at :: "nat \<Rightarrow> int"

definition issued_ops :: "config \<Rightarrow> delivery \<Rightarrow> mongo_update list" where
  "issued_ops cfg d =
     (case snd (post_handler cfg (delivered d) (readings d)) of
        Writes ops \<Rightarrow> cast_all (written_at d) 0 ops
      | other \<Rightarrow> [])"

definition issued_writes :: "config \<Rightarrow> delivery \<Rightarrow> mongo_update multiset" where
  "issued_writes cfg d = mset (issued_ops cfg d)"

section \<open>Example requests and payloads\<close>

definition request0 :: request where
  "request0 = \<lparr> signature_header = None, rawBody = Some ''{}'', body = JObj [], query = [] \<rparr>"

definition config0 :: config where
  "config0 = \<lparr> verifyToken = ''tok'', metaAppSecret = None, phoneHashSalt = JStr ''s'' \<rparr>"

definition subscribe_query :: "string \<Rightarrow> (string \<times> js) list" where
  "subscribe_query token =
     [(''hub.mode'', JStr ''subscribe''), (''hub.verify_token'', JStr token),
      (''hub.challenge'', JStr ''1158201444'')]"


text \<open>
  Messages: a text message and an interactive reply (the scenario of the specification), a
  text message with an empty body, and a message without a type.
\<close>

definition msg_hi :: js where
  "msg_hi = JObj [(''id'', JStr ''m1''), (''type'', JStr ''text''),
                  (''text'', JObj [(''body'', JStr ''hi'')])]"

definition msg_reply :: js where
  "msg_reply = JObj [(''id'', JStr ''m2''), (''type'', JStr ''interactive''),
                     (''interactive'', JObj [(''type'', JStr ''button_reply'')])]"

definition msg_empty_body :: js where
  "msg_empty_body = JObj [(''id'', JStr ''m3''), (''type'', JStr ''text''),
                          (''text'', JObj [(''body'', JStr '''')])]"

definition msg_untyped :: js where
  "msg_untyped = JObj [(''timestamp'', JStr ''1700000000'')]"

definition change_ch1 :: js where
  "change_ch1 =
     JObj [(''value'', JObj [(''metadata'', JObj [(''phone_number_id'', JStr ''CH1'')]),
                             (''messages'', JArr [msg_hi, msg_reply])])]"

text \<open>
  An envelope mixing a well-formed entry with a \<^verbatim>\<open>null\<close> entry, an entry without
  changes, an entry with no change, and an entry whose changes lack a value, lack the
  messages, have none, and have one.
\<close>

definition envelope_mixed :: js where
  "envelope_mixed =
     JObj [(''entry'',
       JArr [JObj [(''changes'', JArr [change_ch1])],
             JNull,
             JObj [(''id'', JStr ''e3'')],
             JObj [(''changes'', JArr [])],
             JObj [(''changes'',
               JArr [JObj [(''field'', JStr ''messages'')],
                     JObj [(''value'', JObj [])],
                     JObj [(''value'', JObj [(''messages'', JArr [])])],
                     JObj [(''value'', JObj [(''messages'', JArr [msg_untyped])])]])]])]"

text \<open>
  A clock that advances by a millisecond with every reading, and one that stands still.
\<close>

definition ticking :: "int \<Rightarrow> nat \<Rightarrow> int" where
  "ticking t n = t + int n"

definition steady :: "int \<Rightarrow> nat \<Rightarrow> int" where
  "steady t n = t"

definition extracted_mixed :: "int \<Rightarrow> inbound list" where
  "extracted_mixed t =
     [\<lparr> wa_message_id = JStr ''m1'', phone_number_id = JStr ''CH1'', sender_phone = JNull,
         msg_type = JStr ''text'', msg_text = JStr ''hi'', ts = DateNow t,
         raw_message = msg_hi \<rparr>,
      \<lparr> wa_message_id = JStr ''m2'', phone_number_id = JStr ''CH1'', sender_phone = JNull,
         msg_type = JStr ''interactive'', msg_text = JStr ''button_reply'',
         ts = DateNow (t + 1), raw_message = msg_reply \<rparr>,
      \<lparr> wa_message_id = JUndefined, phone_number_id = JNull, sender_phone = JNull,
         msg_type = JStr ''unknown'', msg_text = JNull,
         ts = DateFromTimestamp (JStr ''1700000000''), raw_message = msg_untyped \<rparr>]"

definition envelope_bad_entry :: js where
  "envelope_bad_entry = JObj [(''entry'', JNum ''1'')]"

text \<open>A message whose timestamp is the object \<^verbatim>\<open>{"toString": 1}\<close>.\<close>

definition envelope_bad_timestamp :: js where
  "envelope_bad_timestamp =
     JObj [(''entry'',
       JArr [JObj [(''changes'',
         JArr [JObj [(''value'', JObj [(''messages'',
           JArr [JObj [(''id'', JStr ''m5''),
                       (''timestamp'', JObj [(''toString'', JNum ''1'')])]])])]])]])]"

definition envelope_empty_body :: js where
  "envelope_empty_body =
     JObj [(''entry'',
       JArr [JObj [(''changes'',
         JArr [JObj [(''value'', JObj [(''messages'', JArr [msg_empty_body])])]])]])]"

definition extracted_empty_body :: inbound where
  "extracted_empty_body =
     \<lparr> wa_message_id = JStr ''m3'', phone_number_id = JNull, sender_phone = JNull,
       msg_type = JStr ''text'', msg_text = JNull, ts = DateNow 7,
       raw_message = msg_empty_body \<rparr>"

text \<open>
  The delivery of the mixed envelope to a router without a secret: the writes the router
  builds for its two messages with an identifier, and the documents they insert when
  they are cast at time \<open>w\<close>.
\<close>

definition request_mixed :: request where
  "request_mixed = request0 \<lparr> body := envelope_mixed \<rparr>"

definition delivery_mixed :: "int \<Rightarrow> int \<Rightarrow> delivery" where
  "delivery_mixed t w =
     \<lparr> delivered = request_mixed, readings = ticking t, written_at = steady w \<rparr>"

definition writes_mixed :: "int \<Rightarrow> update_op list" where
  "writes_mixed t =
     [\<lparr> filter_wa_message_id = JStr ''m1'',
         setOnInsert =
           \<lparr> doc_wa_message_id = JStr ''m1'', doc_phone_number_id = JStr ''CH1'',
             doc_sender_phone_hash = None, doc_direction = ''inbound'',
             doc_msg_type = JStr ''text'', doc_text = JStr ''hi'', doc_ts = DateNow t,
             doc_raw_message = msg_hi \<rparr>,
         upsert = True \<rparr>,
      \<lparr> filter_wa_message_id = JStr ''m2'',
         setOnInsert =
           \<lparr> doc_wa_message_id = JStr ''m2'', doc_phone_number_id = JStr ''CH1'',
             doc_sender_phone_hash = None, doc_direction = ''inbound'',
             doc_msg_type = JStr ''interactive'', doc_text = JStr ''button_reply'',
             doc_ts = DateNow (t + 1), doc_raw_message = msg_reply \<rparr>,
         upsert = True \<rparr>]"

definition stored_mixed :: "int \<Rightarrow> int \<Rightarrow> document list" where
  "stored_mixed t w =
     [[(''wa_message_id'', FVal (JStr ''m1'')), (''updatedAt'', FDate (DateNow w)),
       (''phone_number_id'', FVal (JStr ''CH1'')), (''sender_phone_hash'', FVal JNull),
       (''direction'', FVal (JStr ''inbound'')), (''msg_type'', FVal (JStr ''text'')),
       (''text'', FVal (JStr ''hi'')), (''ts'', FDate (DateNow t)),
       (''raw_message'', FVal msg_hi), (''createdAt'', FDate (DateNow w))],
      [(''wa_message_id'', FVal (JStr ''m2'')), (''updatedAt'', FDate (DateNow w)),
       (''phone_number_id'', FVal (JStr ''CH1'')), (''sender_phone_hash'', FVal JNull),
       (''direction'', FVal (JStr ''inbound'')), (''msg_type'', FVal (JStr ''interactive'')),
       (''text'', FVal (JStr ''button_reply'')), (''ts'', FDate (DateNow (t + 1))),
       (''raw_message'', FVal msg_reply), (''createdAt'', FDate (DateNow w))]]"

text \<open>The documents of the first delivery after a second bulk write at time \<open>w'\<close>.\<close>

definition restored_mixed :: "int \<Rightarrow> int \<Rightarrow> int \<Rightarrow> document list" where
  "restored_mixed t w w' = map (set_field ''updatedAt'' (FDate (DateNow w'))) (stored_mixed t w)"

section \<open>The crypto model against published test vectors\<close>

text \<open>
  SHA-256 of \<^verbatim>\<open>abc\<close> (FIPS 180-4) and HMAC-SHA256 of test case 2 of RFC 4231, evaluated
  by the simplifier from the definitions.
\<close>

lemma sha256_hex_abc:
  "sha256_hex ''abc'' = ''ba7816bf8f01cfea414140de5dae2223b00361a396177a9cb410ff61f20015ad''"
  by code_simp

lemma hmac_sha256_hex_rfc4231:
  "hmac_sha256_hex ''Jefe'' ''what do ya want for nothing?''
     = ''5bdcc146bf60754e6a042426089575c75a003f089d2739839dec58b964ec3843''"
  by code_simp

section \<open>The shape of a digest\<close>

lemma length_sha256: "length (sha256 m) = 8"
  by (simp add: sha256_def Let_def split: prod.splits)

lemma length_hex_digest: "length (hex_digest ws) = 8 * length ws"
  by (induction ws) (simp_all add: hex_digest_def hex32_def)

lemma length_sha256_hex: "length (sha256_hex s) = 64"
  by (simp add: sha256_hex_def length_hex_digest length_sha256)

lemma length_hmac_sha256_hex: "length (hmac_sha256_hex key msg) = 64"
  by (simp add: hmac_sha256_hex_def Let_def length_hex_digest length_sha256)

lemma hexdigit_range: "hexdigit (unat (w AND (15 :: u32))) \<in> set ''0123456789abcdef''"
proof -
  have "unat (w AND 15) \<le> unat (15 :: u32)"
    by (rule word_and_le1 [THEN word_le_nat_alt [THEN iffD1]])
  then have "unat (w AND 15) < length ''0123456789abcdef''"
    by simp
  then show ?thesis
    unfolding hexdigit_def by (rule nth_mem)
qed

lemma hex_digest_chars: "set (hex_digest ws) \<subseteq> set ''0123456789abcdef''"
  unfolding hex_digest_def hex32_def using hexdigit_range by auto

lemma sha256_hex_chars: "set (sha256_hex s) \<subseteq> set ''0123456789abcdef''"
  unfolding sha256_hex_def by (rule hex_digest_chars)

section \<open>Signature verification\<close>

lemma expected_signature_nonempty: "expected_signature secret req \<noteq> []"
  by (simp add: expected_signature_def)

lemma length_expected_signature: "length (expected_signature secret req) = 71"
  by (simp add: expected_signature_def length_hmac_sha256_hex)

lemma expected_signature_header [simp]:
  "expected_signature secret (req \<lparr> signature_header := h \<rparr>) = expected_signature secret req"
  by (simp add: expected_signature_def)

lemma verify_with_secret:
  "secret \<noteq> [] \<Longrightarrow>
   verifyMetaSignature req (Some secret) =
     (signature_header req = Some (expected_signature secret req))"
  using expected_signature_nonempty [of secret req]
  by (auto simp: verifyMetaSignature_def timingSafeEqual_def split: option.splits)

text \<open>
  C2. With a non-empty secret configured, verification fails when the signature header is
  absent, fails for every header value that is not \<^verbatim>\<open>sha256=\<close> followed by the hex
  HMAC-SHA256 of the raw body under the secret, and fails (rather than throwing) when the
  comparison raises, as it does for a header of another length. Altogether it succeeds
  exactly for the expected header value.
\<close>

theorem signature_rejected_unless_exact:
  assumes "secret \<noteq> []"
  shows "(signature_header req = None \<longrightarrow> \<not> verifyMetaSignature req (Some secret))
    \<and> (\<forall>sig. signature_header req = Some sig \<and> sig \<noteq> expected_signature secret req
          \<longrightarrow> \<not> verifyMetaSignature req (Some secret))
    \<and> (\<forall>sig e. signature_header req = Some sig
          \<and> timingSafeEqual sig (expected_signature secret req) = Inl e
          \<longrightarrow> \<not> verifyMetaSignature req (Some secret))
    \<and> verifyMetaSignature req (Some secret)
        = (signature_header req = Some (expected_signature secret req))"
  using assms by (auto simp: verify_with_secret timingSafeEqual_def split: if_splits)

theorem signature_rejected_unless_exact_witness:
  "''k'' \<noteq> []
   \<and> \<not> verifyMetaSignature request0 (Some ''k'')
   \<and> \<not> verifyMetaSignature (request0 \<lparr> signature_header := Some ''sha256=00'' \<rparr>) (Some ''k'')
   \<and> timingSafeEqual ''sha256=00'' (expected_signature ''k'' request0) = Inl RangeError
   \<and> verifyMetaSignature
        (request0 \<lparr> signature_header := Some (expected_signature ''k'' request0) \<rparr>) (Some ''k'')"
proof -
  have k: "''k'' \<noteq> []" by simp
  note T = signature_rejected_unless_exact [OF k]
  have len: "length (expected_signature ''k'' request0) = 71"
    by (rule length_expected_signature)
  have a: "\<not> verifyMetaSignature request0 (Some ''k'')"
    using T [of request0] by (simp add: request0_def)
  have ne: "''sha256=00'' \<noteq> expected_signature ''k'' request0"
  proof
    assume e: "''sha256=00'' = expected_signature ''k'' request0"
    have "length (expected_signature ''k'' request0) = length ''sha256=00''"
      by (simp flip: e)
    with len show False by simp
  qed
  then have b:
    "\<not> verifyMetaSignature (request0 \<lparr> signature_header := Some ''sha256=00'' \<rparr>) (Some ''k'')"
    using T [of "request0 \<lparr> signature_header := Some ''sha256=00'' \<rparr>"] by simp
  have c: "timingSafeEqual ''sha256=00'' (expected_signature ''k'' request0) = Inl RangeError"
    using len by (simp add: timingSafeEqual_def)
  have d: "verifyMetaSignature
      (request0 \<lparr> signature_header := Some (expected_signature ''k'' request0) \<rparr>) (Some ''k'')"
    using T [of "request0 \<lparr> signature_header := Some (expected_signature ''k'' request0) \<rparr>"]
    by simp
  from k a b c d show ?thesis by blast
qed

text \<open>
  C3. Without a configured secret (absent or empty) verification returns true for every
  request: any raw body, any signature header, an absent header too.
\<close>

theorem bypass_without_secret:
  "verifyMetaSignature req None \<and> verifyMetaSignature req (Some '''')"
  by (simp add: verifyMetaSignature_def)

theorem bypass_without_secret_witness:
  "verifyMetaSignature request0 None \<and> verifyMetaSignature request0 (Some '''')
   \<and> verifyMetaSignature (request0 \<lparr> signature_header := Some ''sha256=bad'' \<rparr>) None"
  using bypass_without_secret [of request0]
    bypass_without_secret [of "request0 \<lparr> signature_header := Some ''sha256=bad'' \<rparr>"]
  by simp

section \<open>The verification endpoint\<close>

text \<open>
  C8. A GET verification request is answered with status 200 and the supplied challenge as
  the body exactly when the mode parameter is \<^verbatim>\<open>subscribe\<close> and the supplied token is the
  configured verify token; every other request is answered with status 403.
\<close>

theorem verification_challenge:
  "(get_handler cfg req = Send 200 (query_param req ''hub.challenge''))
     = (query_param req ''hub.mode'' = JStr ''subscribe''
        \<and> query_param req ''hub.verify_token'' = JStr (verifyToken cfg))
   \<and> (get_handler cfg req = SendStatus 403)
     = (\<not> (query_param req ''hub.mode'' = JStr ''subscribe''
        \<and> query_param req ''hub.verify_token'' = JStr (verifyToken cfg)))"
  by (simp add: get_handler_def Let_def)

theorem verification_challenge_witness:
  "get_handler config0 (request0 \<lparr> query := subscribe_query ''tok'' \<rparr>) = Send 200 (JStr ''1158201444'')
   \<and> get_handler config0 (request0 \<lparr> query := subscribe_query ''tik'' \<rparr>) = SendStatus 403
   \<and> get_handler config0 request0 = SendStatus 403"
  using verification_challenge [of config0 "request0 \<lparr> query := subscribe_query ''tok'' \<rparr>"]
    verification_challenge [of config0 "request0 \<lparr> query := subscribe_query ''tik'' \<rparr>"]
    verification_challenge [of config0 request0]
  by (simp add: query_param_def subscribe_query_def config0_def request0_def)

section \<open>Extraction\<close>

lemma iterate_error: "iterate v = Inl e \<Longrightarrow> e = TypeError"
  by (cases v) auto

lemma to_string_error:
  "to_string v = Inl e \<Longrightarrow> e = TypeError"
  "elements_to_strings xs = Inl e \<Longrightarrow> e = TypeError"
  by (induction v and xs rule: to_string_elements_to_strings.induct)
    (auto split: sum.splits option.splits if_splits)

lemma to_primitive_error: "to_primitive v = Inl e \<Longrightarrow> e = TypeError"
  by (cases v) (auto simp: to_primitive_def split: sum.splits option.splits dest: to_string_error)

lemma to_primitive_falsy: "\<not> truthy v \<Longrightarrow> to_primitive v = Inr v"
  by (cases v) (simp_all add: to_primitive_def)

lemma untimed_converts: "untimed m \<Longrightarrow> timestamp_converts m"
  by (simp add: untimed_def timestamp_converts_def to_primitive_falsy)

text \<open>The record of one message: pushed, or a TypeError of its timestamp.\<close>

lemma message_record_cases:
  "message_record clock n pn m =
     (if \<not> timestamp_converts m then Inl TypeError
      else if untimed m then Inr (pushed (DateNow (clock n)) pn m, Suc n)
      else Inr (pushed (DateFromTimestamp (get m ''timestamp'')) pn m, n))"
proof (cases "to_primitive (get m ''timestamp'')")
  case (Inl e)
  with to_primitive_error [OF Inl] to_primitive_falsy [of "get m ''timestamp''"] show ?thesis
    by (auto simp: message_record_def message_ts_def timestamp_converts_def untimed_def)
next
  case (Inr p)
  then show ?thesis
    by (simp add: message_record_def message_ts_def timestamp_converts_def untimed_def)
qed

lemma ticks_append: "ticks (xs @ ys) = ticks xs + ticks ys"
  by (simp add: ticks_def)

lemma records_append:
  "records clock n (xs @ ys) = records clock n xs @ records clock (n + ticks xs) ys"
  by (induction xs arbitrary: n) (auto simp: ticks_def)

lemma messages_loop_records:
  "messages_loop clock pn ms (out, n) =
     (if list_all timestamp_converts ms
      then Inr (out @ records clock n (map (Pair pn) ms), n + ticks (map (Pair pn) ms))
      else Inl TypeError)"
proof (induction ms arbitrary: out n)
  case Nil
  show ?case by (simp add: ticks_def)
next
  case (Cons m ms)
  show ?case
    by (simp add: message_record_cases Cons.IH ticks_def)
qed

lemma changes_loop_records:
  "changes_loop clock cs (out, n) =
     (if list_all well_formed_change cs
      then Inr (out @ records clock n (concat (map change_pairs cs)),
                n + ticks (concat (map change_pairs cs)))
      else Inl TypeError)"
proof (induction cs arbitrary: out n)
  case Nil
  show ?case by (simp add: ticks_def)
next
  case (Cons change cs)
  show ?case
  proof (cases "iterate (change_messages change)")
    case (Inl e)
    with iterate_error [OF Inl] show ?thesis
      by (simp add: well_formed_change_def iterable_def)
  next
    case (Inr ms)
    then show ?thesis
      by (simp add: messages_loop_records Cons.IH well_formed_change_def [of change]
          iterable_def [of "change_messages change"] items_def [of "change_messages change"]
          change_pairs_def [of change] records_append ticks_append Let_def add.assoc)
  qed
qed

lemma entries_loop_records:
  "entries_loop clock es (out, n) =
     (if list_all well_formed_entry es
      then Inr (out @ records clock n (concat (map entry_pairs es)),
                n + ticks (concat (map entry_pairs es)))
      else Inl TypeError)"
proof (induction es arbitrary: out n)
  case Nil
  show ?case by (simp add: ticks_def)
next
  case (Cons entry es)
  show ?case
  proof (cases "iterate (entry_changes entry)")
    case (Inl e)
    with iterate_error [OF Inl] show ?thesis
      by (simp add: well_formed_entry_def iterable_def)
  next
    case (Inr cs)
    then show ?thesis
      by (simp add: changes_loop_records Cons.IH well_formed_entry_def [of entry]
          iterable_def [of "entry_changes entry"] items_def [of "entry_changes entry"]
          entry_pairs_def [of entry] records_append ticks_append add.assoc)
  qed
qed

text \<open>
  The loops against the flattening: extraction returns the records of the flattened
  messages on a well-formed envelope and throws a TypeError on every other one.
\<close>

lemma extract_records:
  "extractInboundMessages clock webhookBody =
     (if well_formed webhookBody then Inr (records clock 0 (all_messages webhookBody))
      else Inl TypeError)"
proof (cases "iterate (body_entries webhookBody)")
  case (Inl e)
  with iterate_error [OF Inl] show ?thesis
    by (simp add: extractInboundMessages_def well_formed_def iterable_def)
next
  case (Inr es)
  then show ?thesis
    by (simp add: extractInboundMessages_def entries_loop_records well_formed_def
        iterable_def items_def all_messages_def)
qed

lemma raw_records: "map raw_message (records clock n pairs) = map snd pairs"
  by (induction pairs arbitrary: n) (auto simp: pushed_def)

lemma channel_records: "map phone_number_id (records clock n pairs) = map fst pairs"
  by (induction pairs arbitrary: n) (auto simp: pushed_def)

lemma records_pushed:
  "r \<in> set (records clock n pairs) \<Longrightarrow> \<exists>date pn. r = pushed date pn (raw_message r)"
proof (induction pairs arbitrary: n)
  case Nil
  then show ?case by simp
next
  case (Cons p pairs)
  obtain pn m where p: "p = (pn, m)" by (cases p)
  have "raw_message (pushed date pn m) = m" for date
    by (simp add: pushed_def)
  with Cons p show ?case
    by (auto split: if_splits) metis+
qed

lemma extract_pushed:
  assumes "extractInboundMessages clock webhookBody = Inr out" and "r \<in> set out"
  shows "\<exists>date pn. r = pushed date pn (raw_message r)"
proof -
  from assms(1) have "out = records clock 0 (all_messages webhookBody)"
    by (simp add: extract_records split: if_splits)
  with assms(2) show ?thesis
    by (simp add: records_pushed)
qed

lemma extracted_type_text:
  assumes "extractInboundMessages clock webhookBody = Inr out" and "r \<in> set out"
  shows "msg_type r = message_type (raw_message r) \<and> msg_text r = message_text (raw_message r)"
proof -
  from extract_pushed [OF assms] obtain date pn
    where r: "r = pushed date pn (raw_message r)" by blast
  show ?thesis
    by (subst r, subst (2) r) (simp add: pushed_def)
qed

lemma raw_change_pairs: "map snd (change_pairs change) = items (change_messages change)"
  by (simp add: change_pairs_def comp_def)

lemma raw_entry_pairs:
  "map snd (entry_pairs entry) =
     concat (map (\<lambda>change. items (change_messages change)) (items (entry_changes entry)))"
  by (simp add: entry_pairs_def map_concat comp_def raw_change_pairs)

lemma raw_all_messages:
  "map snd (all_messages webhookBody) =
     concat (map (\<lambda>entry. concat (map (\<lambda>change. items (change_messages change))
                                        (items (entry_changes entry))))
                 (items (body_entries webhookBody)))"
  by (simp add: all_messages_def map_concat comp_def raw_entry_pairs)

text \<open>
  A level guarded by \<^verbatim>\<open>|| []\<close> can be iterated exactly when it is falsy (absent, for
  one), an array or a string; a falsy level, like an empty one, contributes nothing.
\<close>

lemma iterable_level:
  "iterable (js_or v (JArr [])) = (\<not> truthy v \<or> (\<exists>xs. v = JArr xs) \<or> (\<exists>s. v = JStr s))"
  by (cases v) (auto simp: iterable_def js_or_def)

lemma items_falsy_level: "\<not> truthy v \<Longrightarrow> items (js_or v (JArr [])) = []"
  by (simp add: items_def js_or_def)

lemma entry_without_changes:
  "\<not> truthy (get entry ''changes'') \<Longrightarrow> entry_pairs entry = []"
  by (simp add: entry_pairs_def entry_changes_def items_falsy_level)

lemma change_without_messages:
  "\<not> truthy (get (js_or (get change ''value'') (JObj [])) ''messages'') \<Longrightarrow>
   change_pairs change = []"
  by (simp add: change_pairs_def change_messages_def items_falsy_level)

lemma change_without_value:
  "\<not> truthy (get change ''value'') \<Longrightarrow> change_pairs change = []"
  by (rule change_without_messages) (simp add: js_or_def)

text \<open>
  The timestamp of a message can be converted exactly when it is no object with an own
  \<^verbatim>\<open>toString\<close> property and no array whose conversion to a string meets one.
\<close>

lemma timestamp_converts_iff:
  "timestamp_converts m = (to_string (get m ''timestamp'') \<noteq> Inl TypeError)"
proof (cases "get m ''timestamp''")
  case (JArr xs)
  then show ?thesis
    by (auto simp: timestamp_converts_def to_primitive_def split: sum.splits
        dest: to_string_error)
next
  case (JObj kvs)
  then show ?thesis
    by (auto simp: timestamp_converts_def to_primitive_def split: sum.splits option.splits)
qed (simp_all add: timestamp_converts_def to_primitive_def)

text \<open>The example envelopes, evaluated.\<close>

lemma well_formed_envelope_mixed: "well_formed envelope_mixed"
  by (simp add: well_formed_def well_formed_entry_def well_formed_change_def iterable_def
      items_def body_entries_def entry_changes_def change_messages_def js_or_def
      timestamp_converts_def to_primitive_def
      envelope_mixed_def change_ch1_def msg_hi_def msg_reply_def msg_untyped_def)

lemma all_messages_envelope_mixed:
  "all_messages envelope_mixed =
     [(JStr ''CH1'', msg_hi), (JStr ''CH1'', msg_reply), (JNull, msg_untyped)]"
  by (simp add: all_messages_def entry_pairs_def change_pairs_def items_def body_entries_def
      entry_changes_def change_messages_def change_phone_number_id_def js_or_def
      envelope_mixed_def change_ch1_def)

lemma records_envelope_mixed:
  "records (ticking t) 0 (all_messages envelope_mixed) = extracted_mixed t"
  by (simp add: all_messages_envelope_mixed untimed_def pushed_def message_type_def
      message_text_def js_or_def ticking_def extracted_mixed_def msg_hi_def msg_reply_def
      msg_untyped_def)

lemma extract_envelope_mixed:
  "extractInboundMessages (ticking t) envelope_mixed = Inr (extracted_mixed t)"
  by (simp add: extract_records well_formed_envelope_mixed records_envelope_mixed)

text \<open>
  A timestamp that is the object \<^verbatim>\<open>{"toString": 1}\<close> makes \<^verbatim>\<open>Number(m.timestamp)\<close>
  throw, and the extraction with it.
\<close>

lemma extraction_throws_on_timestamp_object:
  "extractInboundMessages clock envelope_bad_timestamp = Inl TypeError"
  by (simp add: extract_records well_formed_def well_formed_entry_def well_formed_change_def
      iterable_def items_def body_entries_def entry_changes_def change_messages_def js_or_def
      timestamp_converts_def to_primitive_def envelope_bad_timestamp_def)

text \<open>
  C5, as stated, fails: the envelope \<^verbatim>\<open>{"entry": 1}\<close> has a level that is neither absent
  nor empty nor a sequence, and \<^verbatim>\<open>for (const entry of 1)\<close> throws a TypeError.
\<close>

theorem extraction_throws_on_number_entry:
  "extractInboundMessages (ticking 7) envelope_bad_entry = Inl TypeError"
  by (simp add: extractInboundMessages_def body_entries_def js_or_def envelope_bad_entry_def)

text \<open>
  C5, amended. On every envelope whose entry, changes and messages levels are each absent
  (or falsy), an array or a string, and in which no message has a timestamp whose
  conversion to a number throws (an object with an own \<^verbatim>\<open>toString\<close> property, or an
  array holding one), extraction raises no error and returns one record per message of
  every change of every entry, in their original order, each with its own message as the
  raw payload and the channel identifier of its change; absent and empty levels contribute
  nothing.
\<close>

theorem extraction_total_order_preserving:
  assumes "well_formed webhookBody"
  shows "extractInboundMessages clock webhookBody
        = Inr (records clock 0 (all_messages webhookBody))
    \<and> map raw_message (records clock 0 (all_messages webhookBody)) =
        concat (map (\<lambda>entry. concat (map (\<lambda>change. items (change_messages change))
                                           (items (entry_changes entry))))
                    (items (body_entries webhookBody)))
    \<and> map phone_number_id (records clock 0 (all_messages webhookBody))
        = map fst (all_messages webhookBody)
    \<and> (\<not> truthy (get webhookBody ''entry'') \<longrightarrow>
          extractInboundMessages clock webhookBody = Inr [])
    \<and> (\<forall>entry. \<not> truthy (get entry ''changes'') \<longrightarrow> entry_pairs entry = [])
    \<and> (\<forall>change. \<not> truthy (get change ''value'') \<longrightarrow> change_pairs change = [])
    \<and> (\<forall>change. \<not> truthy (get (js_or (get change ''value'') (JObj [])) ''messages'') \<longrightarrow>
          change_pairs change = [])"
proof -
  have "\<not> truthy (get webhookBody ''entry'') \<longrightarrow> all_messages webhookBody = []"
    by (simp add: all_messages_def body_entries_def items_falsy_level)
  with assms show ?thesis
    by (auto simp: extract_records raw_records channel_records raw_all_messages
        entry_without_changes change_without_value change_without_messages)
qed

theorem extraction_total_order_preserving_witness:
  "well_formed envelope_mixed
   \<and> extractInboundMessages (ticking 7) envelope_mixed = Inr (extracted_mixed 7)
   \<and> map raw_message (extracted_mixed 7) = [msg_hi, msg_reply, msg_untyped]
   \<and> map phone_number_id (extracted_mixed 7) = [JStr ''CH1'', JStr ''CH1'', JNull]"
proof -
  have "map raw_message (extracted_mixed 7) = [msg_hi, msg_reply, msg_untyped]"
    and "map phone_number_id (extracted_mixed 7) = [JStr ''CH1'', JStr ''CH1'', JNull]"
    by (simp_all add: extracted_mixed_def)
  then show ?thesis
    using extraction_total_order_preserving [OF well_formed_envelope_mixed, of "ticking 7"]
      well_formed_envelope_mixed
    by (simp add: records_envelope_mixed)
qed

text \<open>
  C6, as stated, fails: a text message whose body is the empty string gets the text
  \<^verbatim>\<open>null\<close>, not its body field.
\<close>

theorem text_of_empty_body_is_null:
  "extractInboundMessages (ticking 7) envelope_empty_body = Inr [extracted_empty_body]
   \<and> msg_type extracted_empty_body = JStr ''text''
   \<and> get (get (raw_message extracted_empty_body) ''text'') ''body'' = JStr ''''
   \<and> msg_text extracted_empty_body = JNull
   \<and> msg_text extracted_empty_body \<noteq> get (get (raw_message extracted_empty_body) ''text'') ''body''"
  by (simp add: extractInboundMessages_def body_entries_def entry_changes_def
      change_messages_def change_phone_number_id_def js_or_def message_record_def
      message_ts_def pushed_def ticking_def
      message_type_def message_text_def envelope_empty_body_def extracted_empty_body_def
      msg_empty_body_def)

text \<open>
  C6, amended. For every extracted record the text is derived from the message type: type
  \<^verbatim>\<open>text\<close> yields the nested text body field, type \<^verbatim>\<open>button\<close> the nested button label
  field, type \<^verbatim>\<open>interactive\<close> the interactive sub-type name itself, each replaced by
  \<^verbatim>\<open>null\<close> when that field is absent or falsy (the empty string, for one); every other
  type yields \<^verbatim>\<open>null\<close>.
\<close>

theorem text_field_by_type:
  assumes "extractInboundMessages now webhookBody = Inr out" and "r \<in> set out"
  shows "(msg_type r = JStr ''text'' \<longrightarrow>
            msg_text r = js_or (get (get (raw_message r) ''text'') ''body'') JNull)
    \<and> (msg_type r = JStr ''button'' \<longrightarrow>
            msg_text r = js_or (get (get (raw_message r) ''button'') ''text'') JNull)
    \<and> (msg_type r = JStr ''interactive'' \<longrightarrow>
            msg_text r = js_or (get (get (raw_message r) ''interactive'') ''type'') JNull)
    \<and> (msg_type r \<noteq> JStr ''text'' \<and> msg_type r \<noteq> JStr ''button''
          \<and> msg_type r \<noteq> JStr ''interactive'' \<longrightarrow> msg_text r = JNull)"
proof -
  from extracted_type_text [OF assms]
  have t: "msg_type r = message_type (raw_message r)"
    and x: "msg_text r = message_text (raw_message r)"
    by simp_all
  show ?thesis
    unfolding t x by (simp add: message_text_def Let_def)
qed

theorem text_field_by_type_witness:
  "extractInboundMessages (ticking 7) envelope_mixed = Inr (extracted_mixed 7)
   \<and> msg_text (extracted_mixed 7 ! 0) = JStr ''hi''
   \<and> msg_text (extracted_mixed 7 ! 1) = JStr ''button_reply''
   \<and> msg_text (extracted_mixed 7 ! 2) = JNull"
proof -
  have e: "extractInboundMessages (ticking 7) envelope_mixed = Inr (extracted_mixed 7)"
    by (rule extract_envelope_mixed)
  have m0: "extracted_mixed 7 ! 0 \<in> set (extracted_mixed 7)"
    and m1: "extracted_mixed 7 ! 1 \<in> set (extracted_mixed 7)"
    and m2: "extracted_mixed 7 ! 2 \<in> set (extracted_mixed 7)"
    by (simp_all add: extracted_mixed_def)
  show ?thesis
    using e text_field_by_type [OF e m0] text_field_by_type [OF e m1]
      text_field_by_type [OF e m2]
    by (simp add: extracted_mixed_def msg_hi_def msg_reply_def js_or_def)
qed

text \<open>
  C9. A message whose type field is absent, \<^verbatim>\<open>null\<close> or the empty string is extracted
  with the message type \<^verbatim>\<open>unknown\<close> and, that being no recognised type, with the text
  \<^verbatim>\<open>null\<close>.
\<close>

theorem missing_type_is_unknown:
  assumes "extractInboundMessages now webhookBody = Inr out" and "r \<in> set out"
    and "get (raw_message r) ''type'' = JUndefined \<or> get (raw_message r) ''type'' = JNull
         \<or> get (raw_message r) ''type'' = JStr ''''"
  shows "msg_type r = JStr ''unknown'' \<and> msg_text r = JNull"
proof -
  from extracted_type_text [OF assms(1,2)]
  have t: "msg_type r = message_type (raw_message r)"
    and x: "msg_text r = message_text (raw_message r)"
    by simp_all
  from assms(3) have "message_type (raw_message r) = JStr ''unknown''"
    by (auto simp: message_type_def js_or_def)
  then show ?thesis
    unfolding t x by (simp add: message_text_def)
qed

theorem missing_type_is_unknown_witness:
  "extractInboundMessages (ticking 7) envelope_mixed = Inr (extracted_mixed 7)
   \<and> extracted_mixed 7 ! 2 \<in> set (extracted_mixed 7)
   \<and> get (raw_message (extracted_mixed 7 ! 2)) ''type'' = JUndefined
   \<and> msg_type (extracted_mixed 7 ! 2) = JStr ''unknown''
   \<and> msg_text (extracted_mixed 7 ! 2) = JNull"
proof -
  have e: "extractInboundMessages (ticking 7) envelope_mixed = Inr (extracted_mixed 7)"
    by (rule extract_envelope_mixed)
  have m: "extracted_mixed 7 ! 2 \<in> set (extracted_mixed 7)"
    by (simp add: extracted_mixed_def)
  have u: "get (raw_message (extracted_mixed 7 ! 2)) ''type'' = JUndefined"
    by (simp add: extracted_mixed_def msg_untyped_def)
  from missing_type_is_unknown [OF e m] u e m show ?thesis
    by simp
qed

section \<open>Persistence\<close>

text \<open>Fields of a document after an assignment.\<close>

lemma get_field_set_field:
  "get_field (set_field k v d) k' = (if k' = k then Some v else get_field d k')"
  by (induction d) (auto simp: get_field_def)

lemma stable_set_field: "stable_fields (set_field ''updatedAt'' v d) = stable_fields d"
  by (induction d) (auto simp: stable_fields_def)

lemma stable_set_fields:
  "\<forall>kv \<in> set kvs. fst kv = ''updatedAt'' \<Longrightarrow> stable_fields (set_fields kvs d) = stable_fields d"
  by (induction kvs arbitrary: d) (auto simp: stable_set_field)

lemma get_field_stable:
  "k \<noteq> ''updatedAt'' \<Longrightarrow> map_of (stable_fields d) k = get_field d k"
  by (induction d) (auto simp: stable_fields_def get_field_def)

lemma stable_fields_agree:
  assumes "stable_fields d' = stable_fields d" and "k \<noteq> ''updatedAt''"
  shows "get_field d' k = get_field d k"
  using get_field_stable [OF assms(2), of d'] get_field_stable [OF assms(2), of d] assms(1)
  by simp

text \<open>The writes the router builds, and what Mongoose makes of them.\<close>

lemma make_op_fields:
  "make_op salt m = Inr op \<Longrightarrow>
   filter_wa_message_id op = wa_message_id m
   \<and> doc_wa_message_id (setOnInsert op) = wa_message_id m
   \<and> doc_raw_message (setOnInsert op) = raw_message m
   \<and> doc_direction (setOnInsert op) = ''inbound''
   \<and> upsert op"
  by (auto simp: make_op_def split: sum.splits)

lemma make_op_succeeds:
  "(\<exists>op. make_op salt m = Inr op) = (\<exists>h. hashPhone (sender_phone m) salt = Inr h)"
  by (auto simp: make_op_def split: sum.splits)

lemma map_ops_list_all2:
  "(map_ops salt ms = Inr ops) = list_all2 (\<lambda>m op. make_op salt m = Inr op) ms ops"
proof (induction ms arbitrary: ops)
  case Nil
  show ?case by auto
next
  case (Cons m ms)
  show ?case
    by (cases ops) (auto simp: Cons.IH [symmetric] split: sum.splits)
qed

lemma map_ops_member:
  assumes "map_ops salt ms = Inr ops" and "op \<in> set ops"
  shows "\<exists>m \<in> set ms. make_op salt m = Inr op"
proof -
  from assms(1) have all: "list_all2 (\<lambda>m op. make_op salt m = Inr op) ms ops"
    by (simp add: map_ops_list_all2)
  from assms(2) obtain i where i: "i < length ops" and op: "ops ! i = op"
    by (auto simp: in_set_conv_nth)
  from all i have "i < length ms" and "make_op salt (ms ! i) = Inr (ops ! i)"
    by (simp_all add: list_all2_conv_all_nth)
  with op show ?thesis
    by (metis nth_mem)
qed

lemma post_handler_writes:
  "(snd (post_handler cfg req clock) = Writes ops) =
     (verifyMetaSignature req (metaAppSecret cfg) \<and>
      (\<exists>msgs. extractInboundMessages clock (body req) = Inr msgs \<and> msgs \<noteq> [] \<and>
         build_ops (phoneHashSalt cfg) msgs = Inr ops))"
  by (auto simp: post_handler_def split: sum.splits)

lemma cast_string_truthy: "cast_string v = Inr x \<Longrightarrow> truthy v \<Longrightarrow> \<exists>s. x = JStr s"
  by (cases v) (auto split: option.splits js.splits list.splits if_splits)

lemma cast_update_shape:
  assumes "cast_update now op = Inr w"
    and "truthy (filter_wa_message_id op)"
    and "doc_wa_message_id (setOnInsert op) = filter_wa_message_id op"
    and "doc_direction (setOnInsert op) = ''inbound''"
  shows "m_set w = [(''updatedAt'', FDate (DateNow now))]
    \<and> (\<exists>s. m_filter w = [(''wa_message_id'', FVal (JStr s))]
          \<and> get_field (new_document w) ''wa_message_id'' = Some (FVal (JStr s)))
    \<and> get_field (new_document w) ''direction'' = Some (FVal (JStr ''inbound''))
    \<and> get_field (new_document w) ''createdAt'' = Some (FDate (DateNow now))"
proof -
  from assms(1) obtain x where x: "cast_string (filter_wa_message_id op) = Inr x"
    by (auto simp: cast_update_def split: sum.splits)
  from cast_string_truthy [OF x assms(2)] obtain s where s: "x = JStr s"
    by blast
  from assms(1) x s assms(3,4) show ?thesis
    by (auto simp: cast_update_def new_document_def get_field_def split: sum.splits)
qed

lemma cast_all_member:
  "w \<in> set (cast_all clock i ops) \<Longrightarrow>
   \<exists>op \<in> set ops. \<exists>j. cast_update (clock j) op = Inr w"
proof (induction ops arbitrary: i)
  case Nil
  then show ?case by simp
next
  case (Cons op ops)
  show ?case
  proof (cases "cast_update (clock i) op")
    case (Inl e)
    with Cons.prems have "w \<in> set (cast_all clock (Suc i) ops)"
      by simp
    from Cons.IH [OF this] show ?thesis
      by auto
  next
    case (Inr w')
    with Cons.prems have "w = w' \<or> w \<in> set (cast_all clock (Suc i) ops)"
      by auto
    then show ?thesis
    proof
      assume "w = w'"
      with Inr show ?thesis by auto
    next
      assume "w \<in> set (cast_all clock (Suc i) ops)"
      from Cons.IH [OF this] show ?thesis
        by auto
    qed
  qed
qed

text \<open>
  Every write that reaches the database for a delivery sets \<^verbatim>\<open>updatedAt\<close> and nothing
  else, is filtered on a string, and would insert an inbound message with that string as
  its identifier.
\<close>

lemma issued_ops_shape:
  assumes "w \<in> set (issued_ops cfg d)"
  shows "\<exists>j. m_set w = [(''updatedAt'', FDate (DateNow (written_at d j)))]
    \<and> (\<exists>s. m_filter w = [(''wa_message_id'', FVal (JStr s))]
          \<and> get_field (new_document w) ''wa_message_id'' = Some (FVal (JStr s)))
    \<and> get_field (new_document w) ''direction'' = Some (FVal (JStr ''inbound''))
    \<and> get_field (new_document w) ''createdAt'' = Some (FDate (DateNow (written_at d j)))"
proof -
  from assms obtain ops
    where p: "snd (post_handler cfg (delivered d) (readings d)) = Writes ops"
      and w: "w \<in> set (cast_all (written_at d) 0 ops)"
    by (cases "snd (post_handler cfg (delivered d) (readings d))") (auto simp: issued_ops_def)
  from cast_all_member [OF w] obtain op j
    where op: "op \<in> set ops" and c: "cast_update (written_at d j) op = Inr w"
    by blast
  from p obtain msgs
    where "map_ops (phoneHashSalt cfg) (filter (\<lambda>m. truthy (wa_message_id m)) msgs) = Inr ops"
    by (auto simp: post_handler_writes build_ops_def)
  from map_ops_member [OF this op] obtain m
    where t: "truthy (wa_message_id m)" and m: "make_op (phoneHashSalt cfg) m = Inr op"
    by auto
  from make_op_fields [OF m] t
  have "truthy (filter_wa_message_id op)"
    and "doc_wa_message_id (setOnInsert op) = filter_wa_message_id op"
    and "doc_direction (setOnInsert op) = ''inbound''"
    by simp_all
  from cast_update_shape [OF c this] show ?thesis
    by (rule exI)
qed

lemma pending_shape:
  assumes "w \<in># sum_list (map (issued_writes cfg) deliveries)"
  shows "(\<forall>kv \<in> set (m_set w). fst kv = ''updatedAt'')
    \<and> (\<exists>s. get_field (new_document w) ''wa_message_id'' = Some (FVal (JStr s)))
    \<and> get_field (new_document w) ''direction'' = Some (FVal (JStr ''inbound''))"
proof -
  from assms obtain d where "w \<in># issued_writes cfg d"
    by (induction deliveries) auto
  then have "w \<in> set (issued_ops cfg d)"
    by (simp add: issued_writes_def)
  from issued_ops_shape [OF this] show ?thesis
    by auto
qed

text \<open>One write against the collection.\<close>

lemma update_first_stable:
  "update_first P f db = Some db' \<Longrightarrow> (\<And>d. stable_fields (f d) = stable_fields d) \<Longrightarrow>
   map stable_fields db' = map stable_fields db"
  by (induction db arbitrary: db') (auto split: if_splits option.splits)

lemma updateOne_shape:
  assumes "\<forall>kv \<in> set (m_set w). fst kv = ''updatedAt''"
  shows "map stable_fields (updateOne w db) = map stable_fields db
    \<or> updateOne w db = db @ [new_document w]"
proof (cases "update_first (matches (m_filter w)) (set_fields (m_set w)) db")
  case None
  then show ?thesis
    by (simp add: updateOne_def Let_def)
next
  case (Some updated)
  from update_first_stable [OF Some] assms
  have "map stable_fields updated = map stable_fields db"
    by (simp add: stable_set_fields)
  with Some show ?thesis
    by (simp add: updateOne_def Let_def)
qed

lemma updateOne_unique: "unique_ids db \<Longrightarrow> unique_ids (updateOne w db)"
  by (simp add: updateOne_def Let_def)

text \<open>
  For a write filtered on the identifier it would insert, and setting \<^verbatim>\<open>updatedAt\<close>
  only, the index never refuses: the identifiers stay distinct by the write itself. The
  writes of the router are of this kind.
\<close>

lemma update_first_none: "update_first P f db = None \<Longrightarrow> d \<in> set db \<Longrightarrow> \<not> P d"
  by (induction db) (auto split: if_splits option.splits)

lemma update_first_keys:
  "update_first P f db = Some db' \<Longrightarrow> (\<And>d. key_of (f d) = key_of d) \<Longrightarrow>
   map key_of db' = map key_of db"
  by (induction db arbitrary: db') (auto split: if_splits option.splits)

lemma key_of_stable: "stable_fields d' = stable_fields d \<Longrightarrow> key_of d' = key_of d"
  using stable_fields_agree [of d' d "''wa_message_id''"]
  by (simp add: key_of_def field_or_null_def)

lemma index_never_refuses:
  assumes "unique_ids db"
    and "\<forall>kv \<in> set (m_set w). fst kv = ''updatedAt''"
    and "m_filter w = [(''wa_message_id'', key)]"
    and "get_field (new_document w) ''wa_message_id'' = Some key"
  shows "updateOne w db =
    (case update_first (matches (m_filter w)) (set_fields (m_set w)) db of
       Some updated \<Rightarrow> updated
     | None \<Rightarrow> if m_upsert w then db @ [new_document w] else db)"
proof (cases "update_first (matches (m_filter w)) (set_fields (m_set w)) db")
  case None
  have fresh: "key \<notin> set (map key_of db)"
  proof
    assume "key \<in> set (map key_of db)"
    then obtain d where d: "d \<in> set db" and k: "key_of d = key"
      by auto
    from update_first_none [OF None d] assms(3) have "key_of d \<noteq> key"
      by (simp add: matches_def key_of_def)
    with k show False
      by (rule notE [rotated])
  qed
  from assms(1) have "distinct (map key_of db)"
    by (simp only: unique_ids_def)
  with fresh have "distinct (map key_of db @ [key])"
    by (simp only: distinct_append distinct.simps list.set) simp
  moreover have "key_of (new_document w) = key"
    using assms(4) by (simp add: key_of_def field_or_null_def)
  ultimately have "unique_ids (db @ [new_document w])"
    by (simp only: unique_ids_def map_append list.map)
  with None assms(1) show ?thesis
    by (simp add: updateOne_def Let_def)
next
  case (Some updated)
  have "key_of (set_fields (m_set w) d) = key_of d" for d
    using assms(2) by (intro key_of_stable stable_set_fields)
  from update_first_keys [OF Some this] assms(1) have "unique_ids updated"
    by (simp add: unique_ids_def)
  with Some show ?thesis
    by (simp add: updateOne_def Let_def)
qed

lemma issued_write_applies:
  assumes "w \<in> set (issued_ops cfg d)" and "unique_ids db"
  shows "updateOne w db =
    (case update_first (matches (m_filter w)) (set_fields (m_set w)) db of
       Some updated \<Rightarrow> updated
     | None \<Rightarrow> if m_upsert w then db @ [new_document w] else db)"
proof -
  from issued_ops_shape [OF assms(1)] obtain j s
    where "m_set w = [(''updatedAt'', FDate (DateNow (written_at d j)))]"
      and f: "m_filter w = [(''wa_message_id'', FVal (JStr s))]"
      and n: "get_field (new_document w) ''wa_message_id'' = Some (FVal (JStr s))"
    by blast
  then have "\<forall>kv \<in> set (m_set w). fst kv = ''updatedAt''"
    by simp
  from index_never_refuses [OF assms(2) this f n] show ?thesis .
qed

text \<open>The schema casts a number and the string of its digits to one identifier.\<close>

lemma number_and_string_identifier: "cast_string (JNum ''5'') = cast_string (JStr ''5'')"
  by simp

text \<open>
  A run of writes that set \<^verbatim>\<open>updatedAt\<close> only: the documents keep their places and
  their other fields, and what is added at the end was inserted by one of the writes.
\<close>

lemma bulkWrite_grows:
  "bulkWrite pending db db' \<Longrightarrow> unique_ids db \<Longrightarrow>
   \<forall>w. w \<in># pending \<longrightarrow> (\<forall>kv \<in> set (m_set w). fst kv = ''updatedAt'') \<Longrightarrow>
   unique_ids db'
   \<and> (\<exists>new. map stable_fields db' = map stable_fields db @ map stable_fields new
         \<and> set new \<subseteq> new_document ` set_mset pending)"
proof (induction rule: bulkWrite.induct)
  case (finished db)
  then show ?case by simp
next
  case (applied w pending db db')
  from applied.prems(2) applied.hyps(1)
  have only: "\<forall>kv \<in> set (m_set w). fst kv = ''updatedAt''"
    by blast
  from applied.prems(2)
  have rest: "\<forall>w'. w' \<in># pending - {#w#} \<longrightarrow> (\<forall>kv \<in> set (m_set w'). fst kv = ''updatedAt'')"
    by (auto dest: in_diffD)
  from applied.prems(1) have "unique_ids (updateOne w db)"
    by (rule updateOne_unique)
  from applied.IH [OF this rest] obtain new where u: "unique_ids db'"
    and new: "map stable_fields db' = map stable_fields (updateOne w db) @ map stable_fields new"
    and sub: "set new \<subseteq> new_document ` set_mset (pending - {#w#})"
    by blast
  from sub have sub': "set new \<subseteq> new_document ` set_mset pending"
    by (auto dest: in_diffD)
  from updateOne_shape [OF only, of db] show ?case
  proof
    assume "map stable_fields (updateOne w db) = map stable_fields db"
    with u new sub' show ?thesis by auto
  next
    assume "updateOne w db = db @ [new_document w]"
    with new
    have "map stable_fields db' = map stable_fields db @ map stable_fields (new_document w # new)"
      by simp
    moreover from sub' applied.hyps(1)
    have "set (new_document w # new) \<subseteq> new_document ` set_mset pending"
      by auto
    ultimately show ?thesis using u by blast
  qed
next
  case (failed w pending db db')
  from failed.prems(2)
  have rest: "\<forall>w'. w' \<in># pending - {#w#} \<longrightarrow> (\<forall>kv \<in> set (m_set w'). fst kv = ''updatedAt'')"
    by (auto dest: in_diffD)
  from failed.IH [OF failed.prems(1) rest] obtain new where u: "unique_ids db'"
    and new: "map stable_fields db' = map stable_fields db @ map stable_fields new"
    and sub: "set new \<subseteq> new_document ` set_mset (pending - {#w#})"
    by blast
  from sub have "set new \<subseteq> new_document ` set_mset pending"
    by (auto dest: in_diffD)
  with u new show ?case by blast
qed

text \<open>The writes applied in list order are one run of the unordered bulk write.\<close>

lemma bulkWrite_apply_ops: "bulkWrite (mset ws) db (apply_ops ws db)"
proof (induction ws arbitrary: db)
  case Nil
  show ?case by (simp add: bulkWrite.finished)
next
  case (Cons w ws)
  have "bulkWrite (mset (w # ws) - {#w#}) (updateOne w db) (apply_ops (w # ws) db)"
    using Cons.IH [of "updateOne w db"] by simp
  then show ?case
    by (rule bulkWrite.applied [rotated]) simp
qed

text \<open>The example delivery, evaluated.\<close>

lemma build_ops_mixed: "build_ops (JStr ''s'') (extracted_mixed t) = Inr (writes_mixed t)"
  by (simp add: build_ops_def extracted_mixed_def make_op_def hashPhone_def writes_mixed_def)

lemma verified_request_mixed: "verifyMetaSignature request_mixed (metaAppSecret config0)"
  by (simp add: verifyMetaSignature_def config0_def)

lemma extract_request_mixed:
  "extractInboundMessages (ticking t) (body request_mixed) = Inr (extracted_mixed t)"
  by (simp add: request_mixed_def extract_envelope_mixed)

lemma post_request_mixed:
  "post_handler config0 request_mixed (ticking t) = (SendStatus 200, Writes (writes_mixed t))"
proof -
  have "extracted_mixed t \<noteq> []"
    by (simp add: extracted_mixed_def)
  moreover have "phoneHashSalt config0 = JStr ''s''"
    by (simp add: config0_def)
  ultimately show ?thesis
    by (simp add: post_handler_def verified_request_mixed extract_request_mixed build_ops_mixed)
qed

lemma issued_delivery_mixed:
  "issued_ops config0 (delivery_mixed t w) = cast_all (steady w) 0 (writes_mixed t)"
  by (simp add: issued_ops_def delivery_mixed_def post_request_mixed)

lemma first_delivery_mixed:
  "apply_ops (cast_all (steady w) 0 (writes_mixed t)) [] = stored_mixed t w"
  by (simp add: writes_mixed_def stored_mixed_def cast_update_def updateOne_def steady_def
      new_document_def unique_ids_def key_of_def field_or_null_def get_field_def matches_def)

lemma second_delivery_mixed:
  "apply_ops (cast_all (steady w') 0 (writes_mixed t')) (stored_mixed t w)
     = restored_mixed t w w'"
  by (simp add: writes_mixed_def stored_mixed_def restored_mixed_def cast_update_def
      updateOne_def new_document_def unique_ids_def key_of_def field_or_null_def get_field_def
      matches_def steady_def)

text \<open>
  C1, as stated, fails. The mixed envelope is delivered and written at time 50; it is
  delivered again and written at time 90. Both of its messages are stored already, and the
  second delivery changes a field of each stored document: \<^verbatim>\<open>updatedAt\<close>, which the
  schema's \<^verbatim>\<open>timestamps: true\<close> makes Mongoose set with every \<^verbatim>\<open>updateOne\<close>, goes
  from 50 to 90.
\<close>

theorem redelivery_rewrites_updatedAt:
  "apply_ops (issued_ops config0 (delivery_mixed 7 50)) [] = stored_mixed 7 50
   \<and> apply_ops (issued_ops config0 (delivery_mixed 7 90)) (stored_mixed 7 50)
       = restored_mixed 7 50 90
   \<and> bulkWrite (issued_writes config0 (delivery_mixed 7 90)) (stored_mixed 7 50)
       (restored_mixed 7 50 90)
   \<and> get_field (stored_mixed 7 50 ! 0) ''wa_message_id'' = Some (FVal (JStr ''m1''))
   \<and> get_field (restored_mixed 7 50 90 ! 0) ''wa_message_id'' = Some (FVal (JStr ''m1''))
   \<and> get_field (stored_mixed 7 50 ! 0) ''updatedAt'' = Some (FDate (DateNow 50))
   \<and> get_field (restored_mixed 7 50 90 ! 0) ''updatedAt'' = Some (FDate (DateNow 90))
   \<and> restored_mixed 7 50 90 \<noteq> stored_mixed 7 50"
proof -
  have run: "bulkWrite (issued_writes config0 (delivery_mixed 7 90)) (stored_mixed 7 50)
      (restored_mixed 7 50 90)"
    using bulkWrite_apply_ops [of "cast_all (steady 90) 0 (writes_mixed 7)" "stored_mixed 7 50"]
    by (simp add: issued_writes_def issued_delivery_mixed second_delivery_mixed)
  have fields: "get_field (stored_mixed 7 50 ! 0) ''wa_message_id'' = Some (FVal (JStr ''m1''))"
    "get_field (restored_mixed 7 50 90 ! 0) ''wa_message_id'' = Some (FVal (JStr ''m1''))"
    "get_field (stored_mixed 7 50 ! 0) ''updatedAt'' = Some (FDate (DateNow 50))"
    "get_field (restored_mixed 7 50 90 ! 0) ''updatedAt'' = Some (FDate (DateNow 90))"
    "restored_mixed 7 50 90 \<noteq> stored_mixed 7 50"
    by (simp_all add: stored_mixed_def restored_mixed_def get_field_def)
  from run fields show ?thesis
    by (simp add: issued_delivery_mixed first_delivery_mixed second_delivery_mixed)
qed

text \<open>
  C1, amended. Whatever deliveries the router handles, at once or one after the other, and
  in whatever order the database applies their writes (some of which may fail): the
  collection keeps at most one document per \<^verbatim>\<open>wa_message_id\<close> (the identifiers compared
  as the strings the schema casts them to); every document stored before keeps its place
  and every field other than \<^verbatim>\<open>updatedAt\<close>, so a later delivery of an identifier that
  is stored already leaves these fields as the first persisted attempt set them; and every
  document added is, in every field other than \<^verbatim>\<open>updatedAt\<close>, the document one of the
  writes of these deliveries inserts: an inbound message with a string identifier.
\<close>

theorem persistence_insert_only:
  assumes "bulkWrite (sum_list (map (issued_writes cfg) deliveries)) db db'"
    and "unique_ids db"
  shows "unique_ids db'
    \<and> length db \<le> length db'
    \<and> (\<forall>i k. i < length db \<and> k \<noteq> ''updatedAt'' \<longrightarrow>
          get_field (db' ! i) k = get_field (db ! i) k)
    \<and> (\<forall>i. length db \<le> i \<and> i < length db' \<longrightarrow>
          (\<exists>w. w \<in># sum_list (map (issued_writes cfg) deliveries)
             \<and> (\<forall>k. k \<noteq> ''updatedAt'' \<longrightarrow>
                   get_field (db' ! i) k = get_field (new_document w) k)
             \<and> (\<exists>s. get_field (db' ! i) ''wa_message_id'' = Some (FVal (JStr s)))
             \<and> get_field (db' ! i) ''direction'' = Some (FVal (JStr ''inbound''))))"
proof -
  let ?pending = "sum_list (map (issued_writes cfg) deliveries)"
  have only: "\<forall>w. w \<in># ?pending \<longrightarrow> (\<forall>kv \<in> set (m_set w). fst kv = ''updatedAt'')"
  proof (intro allI impI)
    fix w
    assume "w \<in># ?pending"
    from pending_shape [OF this] show "\<forall>kv \<in> set (m_set w). fst kv = ''updatedAt''"
      by (rule conjunct1)
  qed
  from bulkWrite_grows [OF assms only] obtain new where u: "unique_ids db'"
    and new: "map stable_fields db' = map stable_fields db @ map stable_fields new"
    and sub: "set new \<subseteq> new_document ` set_mset ?pending"
    by blast
  from new
  have "length (map stable_fields db') = length (map stable_fields db @ map stable_fields new)"
    by (rule arg_cong)
  then have len: "length db' = length db + length new"
    by simp
  then have le: "length db \<le> length db'"
    by simp
  have old: "\<forall>i k. i < length db \<and> k \<noteq> ''updatedAt'' \<longrightarrow>
      get_field (db' ! i) k = get_field (db ! i) k"
  proof (intro allI impI)
    fix i k
    assume a: "i < length db \<and> k \<noteq> ''updatedAt''"
    with len have "map stable_fields db' ! i = stable_fields (db' ! i)"
      by simp
    moreover from a
    have "(map stable_fields db @ map stable_fields new) ! i = stable_fields (db ! i)"
      by (simp add: nth_append)
    ultimately have e: "stable_fields (db' ! i) = stable_fields (db ! i)"
      by (simp only: new)
    from a have "k \<noteq> ''updatedAt''"
      by (rule conjunct2)
    with e show "get_field (db' ! i) k = get_field (db ! i) k"
      by (rule stable_fields_agree)
  qed
  have fresh: "\<forall>i. length db \<le> i \<and> i < length db' \<longrightarrow>
      (\<exists>w. w \<in># ?pending
         \<and> (\<forall>k. k \<noteq> ''updatedAt'' \<longrightarrow>
               get_field (db' ! i) k = get_field (new_document w) k)
         \<and> (\<exists>s. get_field (db' ! i) ''wa_message_id'' = Some (FVal (JStr s)))
         \<and> get_field (db' ! i) ''direction'' = Some (FVal (JStr ''inbound'')))"
  proof (intro allI impI)
    fix i
    assume a: "length db \<le> i \<and> i < length db'"
    with len have j: "i - length db < length new"
      by arith
    from a have "map stable_fields db' ! i = stable_fields (db' ! i)"
      by simp
    moreover from a j
    have "(map stable_fields db @ map stable_fields new) ! i
        = stable_fields (new ! (i - length db))"
      by (simp add: nth_append)
    ultimately have s: "stable_fields (db' ! i) = stable_fields (new ! (i - length db))"
      by (simp only: new)
    from j have "new ! (i - length db) \<in> set new"
      by (rule nth_mem)
    with sub have "new ! (i - length db) \<in> new_document ` set_mset ?pending"
      by (rule subsetD)
    then obtain w where w: "w \<in># ?pending" and n: "new ! (i - length db) = new_document w"
      by (rule imageE)
    from s n have s': "stable_fields (db' ! i) = stable_fields (new_document w)"
      by (simp only:)
    have same: "\<forall>k. k \<noteq> ''updatedAt'' \<longrightarrow>
        get_field (db' ! i) k = get_field (new_document w) k"
      using stable_fields_agree [OF s'] by (intro allI impI)
    from pending_shape [OF w] obtain x
      where id: "get_field (new_document w) ''wa_message_id'' = Some (FVal (JStr x))"
        and dir: "get_field (new_document w) ''direction'' = Some (FVal (JStr ''inbound''))"
      by blast
    have "get_field (db' ! i) ''wa_message_id'' = get_field (new_document w) ''wa_message_id''"
      by (rule stable_fields_agree [OF s']) simp
    with id have "\<exists>s. get_field (db' ! i) ''wa_message_id'' = Some (FVal (JStr s))"
      by simp
    moreover
    have "get_field (db' ! i) ''direction'' = get_field (new_document w) ''direction''"
      by (rule stable_fields_agree [OF s']) simp
    with dir have "get_field (db' ! i) ''direction'' = Some (FVal (JStr ''inbound''))"
      by simp
    ultimately show "\<exists>w. w \<in># ?pending
        \<and> (\<forall>k. k \<noteq> ''updatedAt'' \<longrightarrow>
              get_field (db' ! i) k = get_field (new_document w) k)
        \<and> (\<exists>s. get_field (db' ! i) ''wa_message_id'' = Some (FVal (JStr s)))
        \<and> get_field (db' ! i) ''direction'' = Some (FVal (JStr ''inbound''))"
      using w same by (intro exI [of _ w] conjI)
  qed
  from u le old fresh show ?thesis
    by (intro conjI)
qed

theorem persistence_insert_only_witness:
  "bulkWrite (sum_list (map (issued_writes config0) [delivery_mixed 7 50])) [] (stored_mixed 7 50)
   \<and> unique_ids []
   \<and> unique_ids (stored_mixed 7 50)
   \<and> bulkWrite (sum_list (map (issued_writes config0) [delivery_mixed 7 90, delivery_mixed 9 95]))
       (stored_mixed 7 50) (restored_mixed 7 50 95)
   \<and> unique_ids (restored_mixed 7 50 95)
   \<and> length (restored_mixed 7 50 95) = 2
   \<and> get_field (restored_mixed 7 50 95 ! 0) ''ts'' = get_field (stored_mixed 7 50 ! 0) ''ts''
   \<and> get_field (stored_mixed 7 50 ! 0) ''ts'' = Some (FDate (DateNow 7))
   \<and> get_field (restored_mixed 7 50 95 ! 1) ''createdAt''
       = get_field (stored_mixed 7 50 ! 1) ''createdAt''
   \<and> get_field (stored_mixed 7 50 ! 1) ''createdAt'' = Some (FDate (DateNow 50))"
proof -
  have first: "bulkWrite (sum_list (map (issued_writes config0) [delivery_mixed 7 50])) []
      (stored_mixed 7 50)"
    using bulkWrite_apply_ops [of "cast_all (steady 50) 0 (writes_mixed 7)" "[]"]
    by (simp add: issued_writes_def issued_delivery_mixed first_delivery_mixed)
  have empty: "unique_ids []"
    by (simp add: unique_ids_def)
  have "apply_ops
      (cast_all (steady 90) 0 (writes_mixed 7) @ cast_all (steady 95) 0 (writes_mixed 9))
      (stored_mixed 7 50) = restored_mixed 7 50 95"
    by (simp add: writes_mixed_def stored_mixed_def restored_mixed_def cast_update_def
        updateOne_def new_document_def unique_ids_def key_of_def field_or_null_def
        get_field_def matches_def steady_def)
  then have again: "bulkWrite
      (sum_list (map (issued_writes config0) [delivery_mixed 7 90, delivery_mixed 9 95]))
      (stored_mixed 7 50) (restored_mixed 7 50 95)"
    using bulkWrite_apply_ops
      [of "cast_all (steady 90) 0 (writes_mixed 7) @ cast_all (steady 95) 0 (writes_mixed 9)"
        "stored_mixed 7 50"]
    by (simp add: issued_writes_def issued_delivery_mixed)
  have len: "length (stored_mixed 7 50) = 2"
    by (simp add: stored_mixed_def)
  have at_first: "get_field (stored_mixed 7 50 ! 0) ''ts'' = Some (FDate (DateNow 7))"
    "get_field (stored_mixed 7 50 ! 1) ''createdAt'' = Some (FDate (DateNow 50))"
    by (simp_all add: stored_mixed_def get_field_def)
  from persistence_insert_only [OF first empty] have u: "unique_ids (stored_mixed 7 50)"
    by simp
  from persistence_insert_only [OF again u]
  have u': "unique_ids (restored_mixed 7 50 95)"
    and same: "\<forall>i k. i < length (stored_mixed 7 50) \<and> k \<noteq> ''updatedAt'' \<longrightarrow>
      get_field (restored_mixed 7 50 95 ! i) k = get_field (stored_mixed 7 50 ! i) k"
    by simp_all
  from same len
  have "get_field (restored_mixed 7 50 95 ! 0) ''ts'' = get_field (stored_mixed 7 50 ! 0) ''ts''"
    and "get_field (restored_mixed 7 50 95 ! 1) ''createdAt''
      = get_field (stored_mixed 7 50 ! 1) ''createdAt''"
    by simp_all
  moreover have "length (restored_mixed 7 50 95) = 2"
    by (simp add: restored_mixed_def len)
  ultimately show ?thesis
    using first empty u again u' at_first by simp
qed

text \<open>
  C7. The handler hands writes to the database exactly when the request is verified, the
  extraction returns at least one record, and a write can be built for every record that
  has a \<^verbatim>\<open>wa_message_id\<close>; the writes are then, in order, one per such record, each
  filtered on the identifier of its record and carrying its payload. The records without
  an identifier get no write and have no part in the condition: whether a write can be
  built for a record depends on the hash of its own sender phone alone.
\<close>

theorem records_without_id_dropped:
  "(snd (post_handler cfg req clock) = Writes ops) =
     (verifyMetaSignature req (metaAppSecret cfg) \<and>
      (\<exists>msgs. extractInboundMessages clock (body req) = Inr msgs \<and> msgs \<noteq> [] \<and>
         list_all2 (\<lambda>m op. make_op (phoneHashSalt cfg) m = Inr op)
           (filter (\<lambda>m. truthy (wa_message_id m)) msgs) ops))
   \<and> (make_op salt m = Inr op \<longrightarrow>
         filter_wa_message_id op = wa_message_id m
         \<and> doc_wa_message_id (setOnInsert op) = wa_message_id m
         \<and> doc_raw_message (setOnInsert op) = raw_message m
         \<and> upsert op)
   \<and> ((\<exists>op'. make_op salt m = Inr op') = (\<exists>h. hashPhone (sender_phone m) salt = Inr h))
   \<and> (snd (post_handler cfg req clock) = Writes ops \<longrightarrow>
         (\<forall>op' \<in> set ops. truthy (filter_wa_message_id op')))"
proof -
  have iff: "(snd (post_handler cfg req clock) = Writes ops) =
     (verifyMetaSignature req (metaAppSecret cfg) \<and>
      (\<exists>msgs. extractInboundMessages clock (body req) = Inr msgs \<and> msgs \<noteq> [] \<and>
         list_all2 (\<lambda>m op. make_op (phoneHashSalt cfg) m = Inr op)
           (filter (\<lambda>m. truthy (wa_message_id m)) msgs) ops))"
    by (simp add: post_handler_writes build_ops_def map_ops_list_all2)
  have ids: "\<forall>op' \<in> set ops. truthy (filter_wa_message_id op')"
    if "snd (post_handler cfg req clock) = Writes ops"
  proof
    fix op'
    assume op': "op' \<in> set ops"
    from that obtain msgs
      where "map_ops (phoneHashSalt cfg) (filter (\<lambda>m. truthy (wa_message_id m)) msgs) = Inr ops"
      by (auto simp: post_handler_writes build_ops_def)
    from map_ops_member [OF this op'] obtain m'
      where "truthy (wa_message_id m')" and "make_op (phoneHashSalt cfg) m' = Inr op'"
      by auto
    with make_op_fields [of "phoneHashSalt cfg" m' op'] show "truthy (filter_wa_message_id op')"
      by simp
  qed
  from iff ids make_op_fields [of salt m op] make_op_succeeds [of salt m] show ?thesis
    by blast
qed

theorem records_without_id_dropped_witness:
  "verifyMetaSignature request_mixed (metaAppSecret config0)
   \<and> extractInboundMessages (ticking 7) (body request_mixed) = Inr (extracted_mixed 7)
   \<and> map wa_message_id (extracted_mixed 7) = [JStr ''m1'', JStr ''m2'', JUndefined]
   \<and> filter (\<lambda>m. truthy (wa_message_id m)) (extracted_mixed 7) = butlast (extracted_mixed 7)
   \<and> list_all2 (\<lambda>m op. make_op (phoneHashSalt config0) m = Inr op)
       (butlast (extracted_mixed 7)) (writes_mixed 7)
   \<and> snd (post_handler config0 request_mixed (ticking 7)) = Writes (writes_mixed 7)
   \<and> map filter_wa_message_id (writes_mixed 7) = [JStr ''m1'', JStr ''m2'']
   \<and> map (\<lambda>op. doc_raw_message (setOnInsert op)) (writes_mixed 7) = [msg_hi, msg_reply]"
proof -
  have v: "verifyMetaSignature request_mixed (metaAppSecret config0)"
    by (rule verified_request_mixed)
  have e: "extractInboundMessages (ticking 7) (body request_mixed) = Inr (extracted_mixed 7)"
    by (rule extract_request_mixed)
  have n: "extracted_mixed 7 \<noteq> []"
    by (simp add: extracted_mixed_def)
  have i: "map wa_message_id (extracted_mixed 7) = [JStr ''m1'', JStr ''m2'', JUndefined]"
    by (simp add: extracted_mixed_def)
  have f: "filter (\<lambda>m. truthy (wa_message_id m)) (extracted_mixed 7) = butlast (extracted_mixed 7)"
    by (simp add: extracted_mixed_def)
  have b: "list_all2 (\<lambda>m op. make_op (phoneHashSalt config0) m = Inr op)
      (butlast (extracted_mixed 7)) (writes_mixed 7)"
    by (simp add: extracted_mixed_def writes_mixed_def make_op_def hashPhone_def config0_def)
  then have a: "list_all2 (\<lambda>m op. make_op (phoneHashSalt config0) m = Inr op)
      (filter (\<lambda>m. truthy (wa_message_id m)) (extracted_mixed 7)) (writes_mixed 7)"
    by (simp only: f)
  from records_without_id_dropped
    [where cfg = config0 and req = request_mixed and clock = "ticking 7"
       and ops = "writes_mixed 7"] v e n a
  have p: "snd (post_handler config0 request_mixed (ticking 7)) = Writes (writes_mixed 7)"
    by blast
  have w: "map filter_wa_message_id (writes_mixed 7) = [JStr ''m1'', JStr ''m2'']"
    "map (\<lambda>op. doc_raw_message (setOnInsert op)) (writes_mixed 7) = [msg_hi, msg_reply]"
    by (simp_all add: writes_mixed_def)
  from v e i f b p w show ?thesis
    by blast
qed

section \<open>The privacy hasher\<close>

lemma hashPhone_falsy: "\<not> truthy phone \<Longrightarrow> hashPhone phone salt = Inr None"
  by (simp add: hashPhone_def)

lemma hashPhone_strings:
  "p \<noteq> [] \<Longrightarrow> hashPhone (JStr p) (JStr s) = Inr (Some (sha256_hex (s @ '':'' @ p)))"
  by (simp add: hashPhone_def js_or_def)

lemma sha256_hex_salt_colon_phone:
  "sha256_hex ''s:1'' = ''1b25f38c1aa8553b03240e793e2562c520496a0469d683b8fcf52ce8206a7e81''"
  by code_simp

lemma sha256_hex_salt_phone:
  "sha256_hex ''s1'' = ''e8bc163c82eee18733288c7d4ac636db3a6deb013ef2d37b68322be20edc45cc''"
  by code_simp

text \<open>
  C4, as stated, fails: for the phone \<^verbatim>\<open>1\<close> and the salt \<^verbatim>\<open>s\<close> the hasher returns the
  digest of \<^verbatim>\<open>s:1\<close>, which is not the digest of the concatenation \<^verbatim>\<open>s1\<close> of salt and
  phone.
\<close>

theorem phone_hash_is_not_of_plain_concatenation:
  "hashPhone (JStr ''1'') (JStr ''s'')
     = Inr (Some ''1b25f38c1aa8553b03240e793e2562c520496a0469d683b8fcf52ce8206a7e81'')
   \<and> sha256_hex (''s'' @ ''1'')
     = ''e8bc163c82eee18733288c7d4ac636db3a6deb013ef2d37b68322be20edc45cc''
   \<and> hashPhone (JStr ''1'') (JStr ''s'') \<noteq> Inr (Some (sha256_hex (''s'' @ ''1'')))"
  by (simp add: hashPhone_strings sha256_hex_salt_colon_phone sha256_hex_salt_phone)

text \<open>
  C4, amended. The hasher returns \<^verbatim>\<open>null\<close> for every phone that is \<^verbatim>\<open>null\<close>, absent or
  empty; for every non-empty phone and every salt string it returns the hex encoding of
  the SHA-256 digest of the salt, a colon and the phone number, concatenated in this
  order. Being a function of phone and salt, it is deterministic.
\<close>

theorem phone_hash_digest:
  "hashPhone JNull salt = Inr None
   \<and> hashPhone JUndefined salt = Inr None
   \<and> hashPhone (JStr '''') salt = Inr None
   \<and> (p \<noteq> [] \<longrightarrow> hashPhone (JStr p) (JStr s) = Inr (Some (sha256_hex (s @ '':'' @ p))))"
  by (simp add: hashPhone_falsy hashPhone_strings)

theorem phone_hash_digest_witness:
  "hashPhone JNull (JStr ''s'') = Inr None
   \<and> hashPhone (JStr '''') (JStr ''s'') = Inr None
   \<and> ''1'' \<noteq> []
   \<and> hashPhone (JStr ''1'') (JStr ''s'') = Inr (Some (sha256_hex ''s:1''))"
  using phone_hash_digest [of "JStr ''s''" "''1''" "''s''"]
  by simp

text \<open>
  C10. For a non-empty phone, a salt that is \<^verbatim>\<open>null\<close>, absent or empty is taken as the
  empty string: the hasher raises nothing and returns, not \<^verbatim>\<open>null\<close>, the digest it
  returns for the empty salt, 64 hexadecimal digits.
\<close>

theorem missing_salt_is_empty_salt:
  assumes "p \<noteq> []" and "salt = JUndefined \<or> salt = JNull \<or> salt = JStr ''''"
  shows "hashPhone (JStr p) salt = hashPhone (JStr p) (JStr '''')
    \<and> hashPhone (JStr p) salt = Inr (Some (sha256_hex ('':'' @ p)))
    \<and> length (sha256_hex ('':'' @ p)) = 64
    \<and> set (sha256_hex ('':'' @ p)) \<subseteq> set ''0123456789abcdef''"
proof -
  from assms have "hashPhone (JStr p) salt = Inr (Some (sha256_hex ('':'' @ p)))"
    by (auto simp: hashPhone_def js_or_def)
  moreover from assms(1) have "hashPhone (JStr p) (JStr '''') = Inr (Some (sha256_hex ('':'' @ p)))"
    by (simp add: hashPhone_def js_or_def)
  ultimately show ?thesis
    using length_sha256_hex [of "'':'' @ p"] sha256_hex_chars [of "'':'' @ p"] by simp
qed

theorem missing_salt_is_empty_salt_witness:
  "''1'' \<noteq> []
   \<and> hashPhone (JStr ''1'') JNull = hashPhone (JStr ''1'') (JStr '''')
   \<and> hashPhone (JStr ''1'') JUndefined = Inr (Some (sha256_hex '':1''))
   \<and> length (sha256_hex '':1'') = 64"
proof -
  have p: "''1'' \<noteq> []" by simp
  have n: "JNull = JUndefined \<or> JNull = JNull \<or> JNull = JStr ''''" by simp
  have u: "JUndefined = JUndefined \<or> JUndefined = JNull \<or> JUndefined = JStr ''''" by simp
  have c: "'':'' @ ''1'' = '':1''" by simp
  from missing_salt_is_empty_salt [OF p n] missing_salt_is_empty_salt [OF p u] p
  show ?thesis unfolding c by blast
qed

end
